theory Spec2Isabelle
  imports Complex_Main "HOL-Library.Sublist"
begin

section \<open>Numbers\<close>

text \<open>
  The DSP engine computes with JavaScript numbers. A finite number is modelled as a
  \<^typ>\<open>real\<close> and the arithmetic on finite numbers is exact: rounding and overflow of
  the 64-bit format are not part of the model. Where the code can leave the finite
  numbers (a square root of a negative number, a division by zero, \<open>Math.acosh\<close> below 1)
  the value is a \<open>jsnum\<close>, which adds \<open>NaN\<close> and the two infinities.
\<close>

datatype jsnum = Num real | NaN | PosInf | NegInf

text \<open>Complex values are the object literals \<open>{re, im}\<close> of the source.\<close>

record cplx =
  re :: real
  im :: real

section \<open>AnimatedParameter\<close>

text \<open>
  The fields \<open>value\<close>, \<open>min\<close> and \<open>max\<close> of the class are \<open>pvalue\<close>, \<open>pmin\<close> and
  \<open>pmax\<close> here.
\<close>

record AnimatedParameter =
  pvalue :: real
  pmin :: real
  pmax :: real
  isAnimating :: bool
  phase :: real

text \<open>
  \<open>autoRange\<close> reads the tolerance from the page (the text of the element
  \<open>slider-tolerance-value\<close>, divided by 100) and falls back to 0.2 when the element is
  missing. The page is outside the engine, so the tolerance read is the parameter \<open>tol\<close>.
\<close>

definition autoRange :: "real \<Rightarrow> AnimatedParameter \<Rightarrow> AnimatedParameter" where
  "autoRange tol p = p\<lparr>pmin := max 0 (pvalue p * (1 - tol)), pmax := pvalue p * (1 + tol)\<rparr>"

definition new_AnimatedParameter :: "real \<Rightarrow> real \<Rightarrow> AnimatedParameter" where
  "new_AnimatedParameter tol v =
     (autoRange tol \<lparr>pvalue = v, pmin = 0, pmax = 0, isAnimating = False, phase = 0\<rparr>)
       \<lparr>isAnimating := False, phase := 0\<rparr>"

text \<open>
  \<open>setRange\<close> has no failing path: it stores \<open>Math.max(0, min)\<close> and \<open>max\<close>, then runs
  its two clamping statements in order.
\<close>

definition setRange :: "real \<Rightarrow> real \<Rightarrow> AnimatedParameter \<Rightarrow> AnimatedParameter" where
  "setRange mn mx p =
     (let p1 = p\<lparr>pmin := max 0 mn\<rparr>;
          p2 = p1\<lparr>pmax := mx\<rparr>;
          p3 = (if pvalue p2 < pmin p2 then p2\<lparr>pvalue := pmin p2\<rparr> else p2);
          p4 = (if pvalue p3 > pmax p3 then p3\<lparr>pvalue := pmax p3\<rparr> else p3)
      in p4)"

text \<open>\<open>update\<close>: one animation step. The phase is reduced by one turn at most.\<close>

definition update :: "real \<Rightarrow> real \<Rightarrow> AnimatedParameter \<Rightarrow> AnimatedParameter" where
  "update deltaTime speed p =
     (if \<not> isAnimating p then p
      else
        let p1 = p\<lparr>phase := phase p + deltaTime * speed * 2 * pi\<rparr>;
            p2 = (if phase p1 > 2 * pi then p1\<lparr>phase := phase p1 - 2 * pi\<rparr> else p1);
            normalized = (sin (phase p2) + 1) / 2
        in p2\<lparr>pvalue := pmin p2 + normalized * (pmax p2 - pmin p2)\<rparr>)"

section \<open>Filter stages\<close>

text \<open>
  The two subclasses of \<open>FilterStage\<close> are the two constructors; the field \<open>type\<close>
  (\<open>'pole'\<close> or \<open>'biquad'\<close>) is the constructor itself. \<open>sid\<close> is the field \<open>id\<close>.
\<close>

datatype FilterStage =
    FirstOrderLowPass (sid: nat) (active: bool) (f0: AnimatedParameter)
  | SecondOrderLowPass (sid: nat) (active: bool) (f0: AnimatedParameter) (Q: AnimatedParameter)

text \<open>
  The constructors take the next identity from the static counter \<open>FilterStage.nextId\<close>
  and increment it; the counter is passed in and returned.
\<close>

definition new_FirstOrderLowPass :: "real \<Rightarrow> real \<Rightarrow> nat \<Rightarrow> FilterStage \<times> nat" where
  "new_FirstOrderLowPass tol f nextId =
     (FirstOrderLowPass nextId True (new_AnimatedParameter tol f), nextId + 1)"

definition new_SecondOrderLowPass :: "real \<Rightarrow> real \<Rightarrow> real \<Rightarrow> nat \<Rightarrow> FilterStage \<times> nat" where
  "new_SecondOrderLowPass tol f q nextId =
     (SecondOrderLowPass nextId True (new_AnimatedParameter tol f) (new_AnimatedParameter tol q),
      nextId + 1)"

fun getResponse :: "FilterStage \<Rightarrow> real \<Rightarrow> cplx" where
  "getResponse (FirstOrderLowPass i a pf) w =
     (let f = pvalue pf;
          denom = f * f + w * w
      in \<lparr>re = f * f / denom, im = (- f) * w / denom\<rparr>)"
| "getResponse (SecondOrderLowPass i a pf pq) w =
     (let f = pvalue pf;
          q = pvalue pq;
          realPart = f * f - w * w;
          imagPart = (f / q) * w;
          denomMagSq = realPart * realPart + imagPart * imagPart;
          num = f * f
      in \<lparr>re = (num * realPart) / denomMagSq, im = (- (num * imagPart)) / denomMagSq\<rparr>)"

definition getMagnitude :: "FilterStage \<Rightarrow> real \<Rightarrow> real" where
  "getMagnitude s w = (let h = getResponse s w in sqrt (re h * re h + im h * im h))"

definition getMagnitudeDb :: "FilterStage \<Rightarrow> real \<Rightarrow> real" where
  "getMagnitudeDb s w =
     (let mag = getMagnitude s w in if mag > 1 / 10 ^ 10 then 20 * log 10 mag else - 200)"

text \<open>\<open>SecondOrderLowPass.getPoles\<close>, and the quantities it computes on the way.\<close>

definition alpha :: "real \<Rightarrow> real \<Rightarrow> real" where
  "alpha f q = f / (2 * q)"

definition discriminant :: "real \<Rightarrow> real \<Rightarrow> real" where
  "discriminant f q = (f * f) / (4 * q * q) - f * f"

fun getPoles :: "FilterStage \<Rightarrow> cplx list" where
  "getPoles (FirstOrderLowPass i a pf) = [\<lparr>re = - pvalue pf, im = 0\<rparr>]"
| "getPoles (SecondOrderLowPass i a pf pq) =
     (let f = pvalue pf;
          q = pvalue pq
      in if discriminant f q \<ge> 0
         then (let sqrtDisc = sqrt (discriminant f q)
               in [\<lparr>re = - alpha f q + sqrtDisc, im = 0\<rparr>,
                   \<lparr>re = - alpha f q - sqrtDisc, im = 0\<rparr>])
         else (let sqrtDisc = sqrt (- discriminant f q)
               in [\<lparr>re = - alpha f q, im = sqrtDisc\<rparr>,
                   \<lparr>re = - alpha f q, im = - sqrtDisc\<rparr>]))"

text \<open>
  The response formulas divide by \<open>f\<^sup>2 + w\<^sup>2\<close>, by \<open>Q\<close> and by the squared magnitude of
  the denominator. On a stage with positive \<open>f0\<close> and \<open>Q\<close> none of these is zero at a
  frequency \<open>w \<ge> 0\<close>, and the real division of the model is the division of the code.
\<close>

fun stage_ok :: "FilterStage \<Rightarrow> bool" where
  "stage_ok (FirstOrderLowPass i a pf) = (0 < pvalue pf)"
| "stage_ok (SecondOrderLowPass i a pf pq) = (0 < pvalue pf \<and> 0 < pvalue pq)"

section \<open>FilterCascade\<close>

record FilterCascade =
  stages :: "FilterStage list"
  animationSpeed :: real
  globalGainDb :: real

definition new_FilterCascade :: FilterCascade where
  "new_FilterCascade = \<lparr>stages = [], animationSpeed = 1, globalGainDb = 0\<rparr>"

definition addStage :: "FilterStage \<Rightarrow> FilterCascade \<Rightarrow> FilterStage \<times> FilterCascade" where
  "addStage s c = (s, c\<lparr>stages := stages c @ [s]\<rparr>)"

definition removeStage :: "nat \<Rightarrow> FilterCascade \<Rightarrow> FilterCascade" where
  "removeStage i c = c\<lparr>stages := filter (\<lambda>s. sid s \<noteq> i) (stages c)\<rparr>"

definition clearStages :: "FilterCascade \<Rightarrow> FilterCascade" where
  "clearStages c = c\<lparr>stages := [], globalGainDb := 0\<rparr>"

text \<open>
  The loop of \<open>FilterCascade.getResponse\<close>: the running product \<open>(re, im)\<close> is the
  accumulator, an inactive stage is skipped.
\<close>

fun response_loop :: "FilterStage list \<Rightarrow> real \<Rightarrow> real \<times> real \<Rightarrow> real \<times> real" where
  "response_loop [] w acc = acc"
| "response_loop (s # ss) w (r, i) =
     (if \<not> active s then response_loop ss w (r, i)
      else
        let h = getResponse s w;
            newRe = r * re h - i * im h;
            newIm = r * im h + i * re h
        in response_loop ss w (newRe, newIm))"

definition cascade_getResponse :: "FilterCascade \<Rightarrow> real \<Rightarrow> cplx" where
  "cascade_getResponse c w =
     (let (r, i) = response_loop (stages c) w (1, 0);
          linearGain = 10 powr (globalGainDb c / 20)
      in \<lparr>re = r * linearGain, im = i * linearGain\<rparr>)"

definition cascade_getMagnitude :: "FilterCascade \<Rightarrow> real \<Rightarrow> real" where
  "cascade_getMagnitude c w =
     (let h = cascade_getResponse c w in sqrt (re h * re h + im h * im h))"

definition cascade_getMagnitudeDb :: "FilterCascade \<Rightarrow> real \<Rightarrow> real" where
  "cascade_getMagnitudeDb c w =
     (let mag = cascade_getMagnitude c w
      in if mag > 1 / 10 ^ 10 then 20 * log 10 mag else - 200)"

section \<open>Operations on JavaScript numbers\<close>

text \<open>
  \<open>Math.sqrt\<close>, \<open>/\<close>, \<open>Math.acosh\<close> and \<open>Math.ceil\<close> with their results outside the
  finite numbers. A zero divisor is taken as \<open>+0\<close>: the divisors of \<open>getMinOrder\<close> that
  can be zero are a difference of equal numbers, a square root and an \<open>acosh\<close>, which are
  \<open>+0\<close>, and the argument \<open>wp\<close>.
\<close>

fun js_sqrt :: "jsnum \<Rightarrow> jsnum" where
  "js_sqrt (Num x) = (if x < 0 then NaN else Num (sqrt x))"
| "js_sqrt PosInf = PosInf"
| "js_sqrt NegInf = NaN"
| "js_sqrt NaN = NaN"

fun js_div :: "jsnum \<Rightarrow> jsnum \<Rightarrow> jsnum" where
  "js_div (Num a) (Num b) =
     (if b \<noteq> 0 then Num (a / b)
      else if 0 < a then PosInf
      else if a < 0 then NegInf
      else NaN)"
| "js_div (Num a) PosInf = Num 0"
| "js_div (Num a) NegInf = Num 0"
| "js_div PosInf (Num b) = (if 0 \<le> b then PosInf else NegInf)"
| "js_div NegInf (Num b) = (if 0 \<le> b then NegInf else PosInf)"
| "js_div _ _ = NaN"

fun js_acosh :: "jsnum \<Rightarrow> jsnum" where
  "js_acosh (Num x) = (if x < 1 then NaN else Num (arcosh x))"
| "js_acosh PosInf = PosInf"
| "js_acosh NegInf = NaN"
| "js_acosh NaN = NaN"

fun js_ceil :: "jsnum \<Rightarrow> jsnum" where
  "js_ceil (Num x) = Num (of_int \<lceil>x\<rceil>)"
| "js_ceil v = v"

text \<open>The comparison \<open><=\<close>: false as soon as one side is \<open>NaN\<close>.\<close>

fun js_le :: "jsnum \<Rightarrow> jsnum \<Rightarrow> bool" where
  "js_le (Num a) (Num b) = (a \<le> b)"
| "js_le NaN _ = False"
| "js_le _ NaN = False"
| "js_le NegInf _ = True"
| "js_le _ PosInf = True"
| "js_le _ _ = False"

text \<open>The remainder \<open>a % b\<close> of finite numbers, \<open>b\<close> not zero: the quotient is truncated.\<close>

definition js_rem :: "real \<Rightarrow> real \<Rightarrow> real" where
  "js_rem a b = a - b * of_int (if 0 \<le> a / b then \<lfloor>a / b\<rfloor> else \<lceil>a / b\<rceil>)"

section \<open>ChebyshevSolver\<close>

text \<open>
  \<open>getMinOrder\<close> on finite arguments. \<open>Math.pow(10, x)\<close> is \<open>10 powr x\<close>. The function has
  no check of its arguments and no failing path.
\<close>

definition getMinOrder :: "real \<Rightarrow> real \<Rightarrow> real \<Rightarrow> real \<Rightarrow> jsnum" where
  "getMinOrder wp ws Ap As =
     (let epsilon = js_sqrt (Num (10 powr (Ap / 10) - 1));
          A = 10 powr (As / 20);
          ratio = js_div (Num ws) (Num wp);
          n = js_div (js_acosh (js_div (js_sqrt (Num (A * A - 1))) epsilon)) (js_acosh ratio)
      in js_ceil n)"

text \<open>
  The specifications the designer is meant for: \<open>ws > wp > 0\<close>, \<open>Ap > 0\<close>, \<open>As > Ap\<close> and an
  argument of \<open>acosh\<close> that is at least 1.
\<close>

definition feasible :: "real \<Rightarrow> real \<Rightarrow> real \<Rightarrow> real \<Rightarrow> bool" where
  "feasible wp ws Ap As \<longleftrightarrow>
     0 < wp \<and> wp < ws \<and> 0 < Ap \<and> Ap < As \<and>
     1 \<le> sqrt (10 powr (As / 20) * 10 powr (As / 20) - 1) / sqrt (10 powr (Ap / 10) - 1)"

text \<open>
  \<open>ChebyshevSolver.getPoles\<close> pushes the object \<open>{sigma, omega}\<close> for \<open>k = 1, ..., n\<close>. It is
  called on a finite \<open>n\<close> and a finite \<open>epsilon\<close> that is not zero.
\<close>

record pole =
  sigma :: real
  omega :: real

definition solver_getPoles :: "real \<Rightarrow> real \<Rightarrow> real \<Rightarrow> pole list" where
  "solver_getPoles n epsilon wp =
     (let gamma = arsinh (1 / epsilon) / n
      in map (\<lambda>k. let theta = pi * (2 * real k - 1) / (2 * n);
                       sg = (- wp) * sinh gamma * sin theta;
                       om = wp * cosh gamma * cos theta
                   in \<lparr>sigma = sg, omega = om\<rparr>)
             [1 ..< Suc (nat \<lfloor>n\<rfloor>)])"

text \<open>
  Reading a property of a pole object. The object has the properties \<open>sigma\<close> and
  \<open>omega\<close> and no other; any other name reads as \<open>undefined\<close>.
\<close>

datatype jsval = Undefined | Number real

definition pole_prop :: "pole \<Rightarrow> string \<Rightarrow> jsval" where
  "pole_prop p name =
     (if name = ''sigma'' then Number (sigma p)
      else if name = ''omega'' then Number (omega p)
      else Undefined)"

text \<open>
  \<open>v > b\<close> and \<open>Math.abs(v) < b\<close> for a finite \<open>b\<close>: \<open>undefined\<close> converts to \<open>NaN\<close>, and
  every comparison with \<open>NaN\<close> is false.
\<close>

fun js_gt :: "jsval \<Rightarrow> real \<Rightarrow> bool" where
  "js_gt Undefined b = False"
| "js_gt (Number a) b = (a > b)"

fun js_abs_lt :: "jsval \<Rightarrow> real \<Rightarrow> bool" where
  "js_abs_lt Undefined b = False"
| "js_abs_lt (Number a) b = (\<bar>a\<bar> < b)"

text \<open>
  The two loops of \<open>getBestSolutionStages\<close> over the poles. The accumulator is the array
  \<open>stages\<close> with the identity counter.
\<close>

fun biquad_loop :: "real \<Rightarrow> pole list \<Rightarrow> FilterStage list \<times> nat \<Rightarrow> FilterStage list \<times> nat" where
  "biquad_loop tol [] acc = acc"
| "biquad_loop tol (p # ps) (st, nextId) =
     (if js_gt (pole_prop p ''im'') 0
      then (let f = sqrt (sigma p * sigma p + omega p * omega p);
                q = f / (- 2 * sigma p);
                (s, nextId') = new_SecondOrderLowPass tol f q nextId
            in biquad_loop tol ps (st @ [s], nextId'))
      else biquad_loop tol ps (st, nextId))"

fun real_pole_loop :: "real \<Rightarrow> pole list \<Rightarrow> FilterStage list \<times> nat \<Rightarrow> FilterStage list \<times> nat" where
  "real_pole_loop tol [] acc = acc"
| "real_pole_loop tol (p # ps) (st, nextId) =
     (if js_abs_lt (pole_prop p ''im'') (1 / 10 ^ 10)
      then (let f = - sigma p;
                (s, nextId') = new_FirstOrderLowPass tol f nextId
            in real_pole_loop tol ps (st @ [s], nextId'))
      else real_pole_loop tol ps (st, nextId))"

text \<open>The object \<open>{stages, globalGainDb}\<close> that \<open>getBestSolutionStages\<close> returns.\<close>

record solution =
  sol_stages :: "FilterStage list"
  sol_globalGainDb :: real

text \<open>
  \<open>getBestSolutionStages\<close>, with the tolerance of the page and the identity counter as
  arguments; the counter is returned with the result. The result is \<open>None\<close> when the call
  does not return: on \<open>n = Infinity\<close> the loop of \<open>getPoles\<close> has no end. On \<open>NaN\<close> and
  \<open>-Infinity\<close> that loop does not run and \<open>n % 2\<close> is \<open>NaN\<close>. On a finite \<open>n\<close> the radicand
  of \<open>epsilon\<close> is positive (lemma \<open>getMinOrder_Num_epsilon\<close>).
\<close>

definition getBestSolutionStages ::
  "real \<Rightarrow> nat \<Rightarrow> real \<Rightarrow> real \<Rightarrow> real \<Rightarrow> real \<Rightarrow> (solution \<times> nat) option" where
  "getBestSolutionStages tol nextId wp ws Ap As =
     (case getMinOrder wp ws Ap As of
        PosInf \<Rightarrow> None
      | NaN \<Rightarrow> Some (\<lparr>sol_stages = [], sol_globalGainDb = 0\<rparr>, nextId)
      | NegInf \<Rightarrow> Some (\<lparr>sol_stages = [], sol_globalGainDb = 0\<rparr>, nextId)
      | Num n \<Rightarrow>
          (let epsilon = sqrt (10 powr (Ap / 10) - 1);
               poles = solver_getPoles n epsilon wp;
               (st1, id1) = biquad_loop tol poles ([], nextId);
               (st2, id2) = real_pole_loop tol poles (st1, id1);
               g = (if js_rem n 2 = 0 then - Ap else 0)
           in Some (\<lparr>sol_stages = st2, sol_globalGainDb = g\<rparr>, id2)))"

section \<open>The older variant of the decomposition\<close>

text \<open>
  The repository holds a second, older copy of the DSP engine. Its classes agree with the
  ones above except in three places: \<open>AnimatedParameter\<close> is constructed with explicit
  bounds, the cutoff parameter of a stage is called \<open>w0\<close> (it is the field \<open>f0\<close> of the
  stage type here), and \<open>getBestSolutionStages\<close> picks the poles by index: the first
  \<open>floor(n / 2)\<close> poles become second-order stages and, for odd \<open>n\<close>, the pole at index
  \<open>floor(n / 2)\<close> becomes the first-order stage. Reading \<open>p.sigma\<close> of an array element
  that does not exist throws a \<open>TypeError\<close>.
\<close>

datatype js_error = TypeError

definition new_AnimatedParameter_legacy :: "real \<Rightarrow> real \<Rightarrow> real \<Rightarrow> AnimatedParameter" where
  "new_AnimatedParameter_legacy v mn mx =
     \<lparr>pvalue = v, pmin = max 0 mn, pmax = mx, isAnimating = False, phase = 0\<rparr>"

definition new_FirstOrderLowPass_legacy :: "real \<Rightarrow> nat \<Rightarrow> FilterStage \<times> nat" where
  "new_FirstOrderLowPass_legacy w0 nextId =
     (FirstOrderLowPass nextId True (new_AnimatedParameter_legacy w0 (1 / 100) 100), nextId + 1)"

definition new_SecondOrderLowPass_legacy :: "real \<Rightarrow> real \<Rightarrow> nat \<Rightarrow> FilterStage \<times> nat" where
  "new_SecondOrderLowPass_legacy w0 q nextId =
     (SecondOrderLowPass nextId True (new_AnimatedParameter_legacy w0 (1 / 100) 100)
        (new_AnimatedParameter_legacy q (1 / 10) 20),
      nextId + 1)"

fun legacy_biquad_loop ::
  "pole list \<Rightarrow> nat list \<Rightarrow> FilterStage list \<times> nat \<Rightarrow> js_error + FilterStage list \<times> nat" where
  "legacy_biquad_loop poles [] acc = Inr acc"
| "legacy_biquad_loop poles (i # is) (st, nextId) =
     (if i < length poles
      then (let p = poles ! i;
                w0 = sqrt (sigma p * sigma p + omega p * omega p);
                q = w0 / (- 2 * sigma p);
                (s, nextId') = new_SecondOrderLowPass_legacy w0 q nextId
            in legacy_biquad_loop poles is (st @ [s], nextId'))
      else Inl TypeError)"

definition legacy_real_pole ::
  "pole list \<Rightarrow> real \<Rightarrow> FilterStage list \<times> nat \<Rightarrow> js_error + FilterStage list \<times> nat" where
  "legacy_real_pole poles n acc =
     (if js_rem n 2 \<noteq> 0
      then (if 0 \<le> \<lfloor>n / 2\<rfloor> \<and> nat \<lfloor>n / 2\<rfloor> < length poles
            then (let p = poles ! nat \<lfloor>n / 2\<rfloor>;
                      w0 = - sigma p;
                      (s, nextId') = new_FirstOrderLowPass_legacy w0 (snd acc)
                  in Inr (fst acc @ [s], nextId'))
            else Inl TypeError)
      else Inr acc)"

definition getBestSolutionStages_legacy ::
  "nat \<Rightarrow> real \<Rightarrow> real \<Rightarrow> real \<Rightarrow> real \<Rightarrow> (js_error + solution \<times> nat) option" where
  "getBestSolutionStages_legacy nextId wp ws Ap As =
     (case getMinOrder wp ws Ap As of
        PosInf \<Rightarrow> None
      | NaN \<Rightarrow> Some (Inl TypeError)
      | NegInf \<Rightarrow> Some (Inl TypeError)
      | Num n \<Rightarrow>
          (let epsilon = sqrt (10 powr (Ap / 10) - 1);
               poles = solver_getPoles n epsilon wp
           in case legacy_biquad_loop poles [0 ..< nat \<lfloor>n / 2\<rfloor>] ([], nextId) of
                Inl e \<Rightarrow> Some (Inl e)
              | Inr acc1 \<Rightarrow>
                  (case legacy_real_pole poles n acc1 of
                     Inl e \<Rightarrow> Some (Inl e)
                   | Inr (st2, id2) \<Rightarrow>
                       Some (Inr (\<lparr>sol_stages = st2,
                                   sol_globalGainDb = (if js_rem n 2 = 0 then - Ap else 0)\<rparr>,
                                  id2)))))"

section \<open>Responses on JavaScript numbers\<close>

text \<open>
  \<open>getResponse\<close> above computes with the real division, which is the division of the
  code only where the divisor is not zero. Nothing in the engine keeps \<open>f0\<close> and \<open>Q\<close>
  away from zero, so the response, the magnitude and the magnitude in dB are given again
  here on \<open>jsnum\<close>, with every operation of the source as the operation on JavaScript
  numbers. The parameters of a stage and the frequency are finite numbers. The only
  divisors are \<open>Q\<close> and sums of squares; a zero divisor is taken as \<open>+0\<close>.
\<close>

fun js_neg :: "jsnum \<Rightarrow> jsnum" where
  "js_neg (Num a) = Num (- a)"
| "js_neg NaN = NaN"
| "js_neg PosInf = NegInf"
| "js_neg NegInf = PosInf"

fun js_add :: "jsnum \<Rightarrow> jsnum \<Rightarrow> jsnum" where
  "js_add (Num a) (Num b) = Num (a + b)"
| "js_add NaN _ = NaN"
| "js_add _ NaN = NaN"
| "js_add PosInf NegInf = NaN"
| "js_add NegInf PosInf = NaN"
| "js_add PosInf _ = PosInf"
| "js_add _ PosInf = PosInf"
| "js_add NegInf _ = NegInf"
| "js_add _ NegInf = NegInf"

definition js_sub :: "jsnum \<Rightarrow> jsnum \<Rightarrow> jsnum" where
  "js_sub a b = js_add a (js_neg b)"

fun js_mul :: "jsnum \<Rightarrow> jsnum \<Rightarrow> jsnum" where
  "js_mul (Num a) (Num b) = Num (a * b)"
| "js_mul NaN _ = NaN"
| "js_mul _ NaN = NaN"
| "js_mul (Num a) PosInf = (if 0 < a then PosInf else if a < 0 then NegInf else NaN)"
| "js_mul (Num a) NegInf = (if 0 < a then NegInf else if a < 0 then PosInf else NaN)"
| "js_mul PosInf (Num b) = (if 0 < b then PosInf else if b < 0 then NegInf else NaN)"
| "js_mul NegInf (Num b) = (if 0 < b then NegInf else if b < 0 then PosInf else NaN)"
| "js_mul PosInf PosInf = PosInf"
| "js_mul NegInf NegInf = PosInf"
| "js_mul PosInf NegInf = NegInf"
| "js_mul NegInf PosInf = NegInf"

fun js_log10 :: "jsnum \<Rightarrow> jsnum" where
  "js_log10 (Num x) = (if x < 0 then NaN else if x = 0 then NegInf else Num (log 10 x))"
| "js_log10 PosInf = PosInf"
| "js_log10 NegInf = NaN"
| "js_log10 NaN = NaN"

text \<open>The comparison \<open>v > b\<close> with a finite \<open>b\<close>: false on \<open>NaN\<close>.\<close>

fun js_num_gt :: "jsnum \<Rightarrow> real \<Rightarrow> bool" where
  "js_num_gt (Num a) b = (a > b)"
| "js_num_gt PosInf b = True"
| "js_num_gt NegInf b = False"
| "js_num_gt NaN b = False"

record jscplx =
  jre :: jsnum
  jim :: jsnum

fun js_getResponse :: "FilterStage \<Rightarrow> real \<Rightarrow> jscplx" where
  "js_getResponse (FirstOrderLowPass i a pf) w =
     (let f = Num (pvalue pf);
          omega = Num w;
          denom = js_add (js_mul f f) (js_mul omega omega)
      in \<lparr>jre = js_div (js_mul f f) denom,
          jim = js_div (js_mul (js_neg f) omega) denom\<rparr>)"
| "js_getResponse (SecondOrderLowPass i a pf pq) w =
     (let f = Num (pvalue pf);
          q = Num (pvalue pq);
          omega = Num w;
          realPart = js_sub (js_mul f f) (js_mul omega omega);
          imagPart = js_mul (js_div f q) omega;
          denomMagSq = js_add (js_mul realPart realPart) (js_mul imagPart imagPart);
          num = js_mul f f
      in \<lparr>jre = js_div (js_mul num realPart) denomMagSq,
          jim = js_div (js_neg (js_mul num imagPart)) denomMagSq\<rparr>)"

definition js_getMagnitude :: "FilterStage \<Rightarrow> real \<Rightarrow> jsnum" where
  "js_getMagnitude s w =
     (let h = js_getResponse s w
      in js_sqrt (js_add (js_mul (jre h) (jre h)) (js_mul (jim h) (jim h))))"

definition js_getMagnitudeDb :: "FilterStage \<Rightarrow> real \<Rightarrow> jsnum" where
  "js_getMagnitudeDb s w =
     (let mag = js_getMagnitude s w
      in if js_num_gt mag (1 / 10 ^ 10) then js_mul (Num 20) (js_log10 mag) else Num (- 200))"

fun js_response_loop :: "FilterStage list \<Rightarrow> real \<Rightarrow> jsnum \<times> jsnum \<Rightarrow> jsnum \<times> jsnum" where
  "js_response_loop [] w acc = acc"
| "js_response_loop (s # ss) w (r, i) =
     (if \<not> active s then js_response_loop ss w (r, i)
      else
        let h = js_getResponse s w;
            newRe = js_sub (js_mul r (jre h)) (js_mul i (jim h));
            newIm = js_add (js_mul r (jim h)) (js_mul i (jre h))
        in js_response_loop ss w (newRe, newIm))"

definition js_cascade_getResponse :: "FilterCascade \<Rightarrow> real \<Rightarrow> jscplx" where
  "js_cascade_getResponse c w =
     (let (r, i) = js_response_loop (stages c) w (Num 1, Num 0);
          linearGain = Num (10 powr (globalGainDb c / 20))
      in \<lparr>jre = js_mul r linearGain, jim = js_mul i linearGain\<rparr>)"

definition js_cascade_getMagnitude :: "FilterCascade \<Rightarrow> real \<Rightarrow> jsnum" where
  "js_cascade_getMagnitude c w =
     (let h = js_cascade_getResponse c w
      in js_sqrt (js_add (js_mul (jre h) (jre h)) (js_mul (jim h) (jim h))))"

definition js_cascade_getMagnitudeDb :: "FilterCascade \<Rightarrow> real \<Rightarrow> jsnum" where
  "js_cascade_getMagnitudeDb c w =
     (let mag = js_cascade_getMagnitude c w
      in if js_num_gt mag (1 / 10 ^ 10) then js_mul (Num 20) (js_log10 mag) else Num (- 200))"

text \<open>A value that is a finite number or \<open>NaN\<close>.\<close>

fun num_or_NaN :: "jsnum \<Rightarrow> bool" where
  "num_or_NaN (Num a) = True"
| "num_or_NaN NaN = True"
| "num_or_NaN PosInf = False"
| "num_or_NaN NegInf = False"

section \<open>Properties of the cascade\<close>

lemma response_loop_inactive:
  "\<forall>s \<in> set ss. \<not> active s \<Longrightarrow> response_loop ss w acc = acc"
  by (induction ss w acc rule: response_loop.induct) auto

text \<open>
  C9. A cascade whose stage list is empty, or all of whose stages are inactive, answers
  \<open>(10 powr (globalGainDb / 20), 0)\<close> at every frequency; a new cascade and a cleared
  cascade answer exactly \<open>(1, 0)\<close>.
\<close>

theorem C9_idle_cascade_response:
  "((\<forall>s \<in> set (stages c). \<not> active s) \<longrightarrow>
      cascade_getResponse c w = \<lparr>re = 10 powr (globalGainDb c / 20), im = 0\<rparr>) \<and>
   (stages c = [] \<longrightarrow>
      cascade_getResponse c w = \<lparr>re = 10 powr (globalGainDb c / 20), im = 0\<rparr>) \<and>
   cascade_getResponse new_FilterCascade w = \<lparr>re = 1, im = 0\<rparr> \<and>
   cascade_getResponse (clearStages c) w = \<lparr>re = 1, im = 0\<rparr>"
  by (simp add: cascade_getResponse_def response_loop_inactive new_FilterCascade_def
        clearStages_def)

theorem C9_idle_cascade_response_witness:
  "cascade_getResponse
     \<lparr>stages = [FirstOrderLowPass 1 False
                  \<lparr>pvalue = 1, pmin = 0, pmax = 2, isAnimating = False, phase = 0\<rparr>,
                SecondOrderLowPass 2 False
                  \<lparr>pvalue = 2, pmin = 1, pmax = 3, isAnimating = False, phase = 0\<rparr>
                  \<lparr>pvalue = 1, pmin = 0, pmax = 2, isAnimating = True, phase = 1\<rparr>],
      animationSpeed = 1, globalGainDb = 20\<rparr> 5
   = \<lparr>re = 10, im = 0\<rparr> \<and>
   cascade_getResponse \<lparr>stages = [], animationSpeed = 1, globalGainDb = 40\<rparr> 7
   = \<lparr>re = 100, im = 0\<rparr>"
  using C9_idle_cascade_response
    [of "\<lparr>stages = [FirstOrderLowPass 1 False
                  \<lparr>pvalue = 1, pmin = 0, pmax = 2, isAnimating = False, phase = 0\<rparr>,
                SecondOrderLowPass 2 False
                  \<lparr>pvalue = 2, pmin = 1, pmax = 3, isAnimating = False, phase = 0\<rparr>
                  \<lparr>pvalue = 1, pmin = 0, pmax = 2, isAnimating = True, phase = 1\<rparr>],
      animationSpeed = 1, globalGainDb = 20\<rparr>" 5]
    C9_idle_cascade_response
    [of "\<lparr>stages = [], animationSpeed = 1, globalGainDb = 40\<rparr>" 7]
  by simp

lemma count_list_filter:
  "count_list (filter P xs) x = (if P x then count_list xs x else 0)"
  by (induction xs) auto

text \<open>
  C10. \<open>removeStage i\<close> keeps exactly the stages whose identity differs from \<open>i\<close>: no
  stage with identity \<open>i\<close> is left (every duplicate goes), every other stage is kept as
  often as it occurred, the stages kept stand in their former order, and \<open>globalGainDb\<close>
  and \<open>animationSpeed\<close> are unchanged.
\<close>

theorem C10_removeStage_frame:
  "stages (removeStage i c) = filter (\<lambda>s. sid s \<noteq> i) (stages c) \<and>
   (\<forall>s \<in> set (stages (removeStage i c)). sid s \<noteq> i) \<and>
   (\<forall>s. sid s \<noteq> i \<longrightarrow> count_list (stages (removeStage i c)) s = count_list (stages c) s) \<and>
   subseq (stages (removeStage i c)) (stages c) \<and>
   globalGainDb (removeStage i c) = globalGainDb c \<and>
   animationSpeed (removeStage i c) = animationSpeed c"
  by (simp add: removeStage_def count_list_filter)

theorem C10_removeStage_frame_witness:
  "map sid (stages (removeStage 1
     \<lparr>stages = [FirstOrderLowPass 1 True
                  \<lparr>pvalue = 1, pmin = 0, pmax = 2, isAnimating = False, phase = 0\<rparr>,
                FirstOrderLowPass 2 True
                  \<lparr>pvalue = 1, pmin = 0, pmax = 2, isAnimating = False, phase = 0\<rparr>,
                FirstOrderLowPass 1 False
                  \<lparr>pvalue = 4, pmin = 0, pmax = 5, isAnimating = False, phase = 0\<rparr>,
                FirstOrderLowPass 3 True
                  \<lparr>pvalue = 1, pmin = 0, pmax = 2, isAnimating = False, phase = 0\<rparr>],
      animationSpeed = 2, globalGainDb = - 3\<rparr>)) = [2, 3] \<and>
   globalGainDb (removeStage 1
     \<lparr>stages = [FirstOrderLowPass 1 True
                  \<lparr>pvalue = 1, pmin = 0, pmax = 2, isAnimating = False, phase = 0\<rparr>,
                FirstOrderLowPass 2 True
                  \<lparr>pvalue = 1, pmin = 0, pmax = 2, isAnimating = False, phase = 0\<rparr>,
                FirstOrderLowPass 1 False
                  \<lparr>pvalue = 4, pmin = 0, pmax = 5, isAnimating = False, phase = 0\<rparr>,
                FirstOrderLowPass 3 True
                  \<lparr>pvalue = 1, pmin = 0, pmax = 2, isAnimating = False, phase = 0\<rparr>],
      animationSpeed = 2, globalGainDb = - 3\<rparr>) = - 3"
  using C10_removeStage_frame
    [of 1 "\<lparr>stages = [FirstOrderLowPass 1 True
                  \<lparr>pvalue = 1, pmin = 0, pmax = 2, isAnimating = False, phase = 0\<rparr>,
                FirstOrderLowPass 2 True
                  \<lparr>pvalue = 1, pmin = 0, pmax = 2, isAnimating = False, phase = 0\<rparr>,
                FirstOrderLowPass 1 False
                  \<lparr>pvalue = 4, pmin = 0, pmax = 5, isAnimating = False, phase = 0\<rparr>,
                FirstOrderLowPass 3 True
                  \<lparr>pvalue = 1, pmin = 0, pmax = 2, isAnimating = False, phase = 0\<rparr>],
      animationSpeed = 2, globalGainDb = - 3\<rparr>"]
  by simp

section \<open>Properties of the animated parameter\<close>

text \<open>
  C6, as the code has it. \<open>setRange\<close> never fails. For every \<open>min\<close> and \<open>max\<close> it stores
  \<open>Math.max(0, min)\<close> and \<open>max\<close> as the new bounds and leaves the animation state alone;
  when \<open>0 \<le> min \<le> max\<close> the bounds stored are \<open>min\<close> and \<open>max\<close> themselves and the value is
  clamped into \<open>[min, max]\<close>.
\<close>

theorem C6_setRange_stores_and_clamps:
  "pmin (setRange mn mx p) = max 0 mn \<and> pmax (setRange mn mx p) = mx \<and>
   isAnimating (setRange mn mx p) = isAnimating p \<and> phase (setRange mn mx p) = phase p \<and>
   (0 \<le> mn \<and> mn \<le> mx \<longrightarrow>
      pmin (setRange mn mx p) = mn \<and>
      mn \<le> pvalue (setRange mn mx p) \<and> pvalue (setRange mn mx p) \<le> mx \<and>
      pvalue (setRange mn mx p) = max mn (min mx (pvalue p)))"
  by (auto simp: setRange_def Let_def)

theorem C6_setRange_stores_and_clamps_witness:
  "pvalue (setRange 4 6 \<lparr>pvalue = 3, pmin = 1, pmax = 4, isAnimating = False, phase = 0\<rparr>) = 4 \<and>
   pmin (setRange 4 6 \<lparr>pvalue = 3, pmin = 1, pmax = 4, isAnimating = False, phase = 0\<rparr>) = 4 \<and>
   pmax (setRange 4 6 \<lparr>pvalue = 3, pmin = 1, pmax = 4, isAnimating = False, phase = 0\<rparr>) = 6"
  using C6_setRange_stores_and_clamps
    [of 4 6 "\<lparr>pvalue = 3, pmin = 1, pmax = 4, isAnimating = False, phase = 0\<rparr>"]
  by simp

text \<open>
  C6 as stated fails: \<open>setRange(5, 2)\<close> has \<open>max < min\<close>, and \<open>setRange(-1, 2)\<close> has
  \<open>min < 0\<close>; both return normally with the bounds replaced.
\<close>

theorem C6_inverted_range_is_stored:
  "setRange 5 2 \<lparr>pvalue = 3, pmin = 1, pmax = 4, isAnimating = False, phase = 0\<rparr>
     = \<lparr>pvalue = 2, pmin = 5, pmax = 2, isAnimating = False, phase = 0\<rparr> \<and>
   setRange (- 1) 2 \<lparr>pvalue = 3, pmin = 1, pmax = 4, isAnimating = False, phase = 0\<rparr>
     = \<lparr>pvalue = 2, pmin = 0, pmax = 2, isAnimating = False, phase = 0\<rparr>"
  by (simp add: setRange_def Let_def)

text \<open>
  What \<open>update\<close> does to an animating parameter: the phase grows by
  \<open>deltaTime * speed * 2 * pi\<close> and is reduced by \<open>2 * pi\<close> once if it then exceeds \<open>2 * pi\<close>;
  the value is \<open>min + ((sin(phase) + 1) / 2) * (max - min)\<close> at the new phase. After a
  step of at most one period from a phase in \<open>[0, 2 * pi]\<close> the phase is in \<open>[0, 2 * pi]\<close>.
\<close>

lemma update_animating:
  assumes "isAnimating p"
  shows "phase (update deltaTime speed p) =
           (if phase p + deltaTime * speed * 2 * pi > 2 * pi
            then phase p + deltaTime * speed * 2 * pi - 2 * pi
            else phase p + deltaTime * speed * 2 * pi)"
    and "pvalue (update deltaTime speed p) =
           pmin p + ((sin (phase (update deltaTime speed p)) + 1) / 2) * (pmax p - pmin p)"
    and "pmin (update deltaTime speed p) = pmin p"
    and "pmax (update deltaTime speed p) = pmax p"
  using assms by (simp_all add: update_def Let_def)

lemma update_short_step:
  assumes "isAnimating p" "0 \<le> phase p" "phase p \<le> 2 * pi"
    and "0 \<le> deltaTime * speed" "deltaTime * speed \<le> 1"
  shows "0 \<le> phase (update deltaTime speed p) \<and> phase (update deltaTime speed p) \<le> 2 * pi"
proof -
  define d where "d = deltaTime * speed * 2 * pi"
  have "d = (deltaTime * speed) * (2 * pi)" unfolding d_def by simp
  moreover have "0 \<le> (deltaTime * speed) * (2 * pi)" using assms(4) by simp
  moreover have "(deltaTime * speed) * (2 * pi) \<le> 1 * (2 * pi)"
    using assms(5) by (intro mult_right_mono) simp_all
  ultimately have d: "0 \<le> d" "d \<le> 2 * pi" by simp_all
  have "phase (update deltaTime speed p) =
      (if phase p + d > 2 * pi then phase p + d - 2 * pi else phase p + d)"
    unfolding d_def by (rule update_animating(1) [OF assms(1)])
  then show ?thesis using d assms(2,3) by (cases "phase p + d > 2 * pi") simp_all
qed

text \<open>
  C8 at a long time step. An animating parameter with phase 0 advanced by 3 seconds at
  1 oscillation per second has its phase raised to \<open>6 * pi\<close> and reduced once, to
  \<open>4 * pi\<close>, which is not below \<open>2 * pi\<close>.
\<close>

theorem C8_phase_after_long_step:
  "phase (update 3 1 \<lparr>pvalue = 1, pmin = 0, pmax = 2, isAnimating = True, phase = 0\<rparr>) = 4 * pi \<and>
   \<not> phase (update 3 1 \<lparr>pvalue = 1, pmin = 0, pmax = 2, isAnimating = True, phase = 0\<rparr>) < 2 * pi"
  by (simp add: update_def Let_def)

section \<open>Properties of the stages\<close>

lemma discriminant_alpha: "q \<noteq> 0 \<Longrightarrow> discriminant f q = (alpha f q)\<^sup>2 - f\<^sup>2"
  by (simp add: discriminant_def alpha_def power2_eq_square)

lemma discriminant_factor:
  assumes "0 < q"
  shows "discriminant f q = (f * f) * ((1 / (2 * q))\<^sup>2 - 1)"
  using assms by (simp add: discriminant_def power2_eq_square algebra_simps)

lemma half_inverse_cmp:
  assumes "0 < (q::real)"
  shows "((1 / (2 * q))\<^sup>2 < 1 \<longleftrightarrow> 1 / 2 < q) \<and> ((1 / (2 * q))\<^sup>2 = 1 \<longleftrightarrow> q = 1 / 2)"
proof -
  have p: "0 < 1 / (2 * q)" using assms by simp
  have "(1 / (2 * q))\<^sup>2 < 1\<^sup>2 \<longleftrightarrow> 1 / (2 * q) < 1"
    using p by (smt (verit) power2_less_imp_less power_strict_mono zero_less_numeral)
  moreover have "1 / (2 * q) < 1 \<longleftrightarrow> 1 / 2 < q"
    using assms by (simp add: field_simps)
  moreover have "(1 / (2 * q))\<^sup>2 = 1\<^sup>2 \<longleftrightarrow> 1 / (2 * q) = 1"
    using p by (smt (verit) power2_eq_iff)
  moreover have "1 / (2 * q) = 1 \<longleftrightarrow> q = 1 / 2"
    using assms by (simp add: field_simps)
  ultimately show ?thesis by simp
qed


lemma discriminant_sign:
  assumes "0 < f" "0 < q"
  shows "(discriminant f q < 0 \<longleftrightarrow> 1 / 2 < q) \<and> (discriminant f q = 0 \<longleftrightarrow> q = 1 / 2)"
proof -
  have ff: "0 < f * f" using assms(1) by simp
  have "discriminant f q < 0 \<longleftrightarrow> (1 / (2 * q))\<^sup>2 - 1 < 0"
    unfolding discriminant_factor [OF assms(2)] using ff
    by (metis mult_less_cancel_left_pos mult_zero_right)
  moreover have "discriminant f q = 0 \<longleftrightarrow> (1 / (2 * q))\<^sup>2 - 1 = 0"
    unfolding discriminant_factor [OF assms(2)] using ff
    by (metis less_irrefl mult_eq_0_iff)
  ultimately show ?thesis using half_inverse_cmp [OF assms(2)] by simp
qed

lemma sqrt_disc_less_alpha:
  assumes "0 < f" "0 < q" "0 \<le> discriminant f q"
  shows "sqrt (discriminant f q) < alpha f q"
proof -
  have a: "0 < alpha f q" using assms by (simp add: alpha_def)
  have "discriminant f q < (alpha f q)\<^sup>2"
    using assms by (simp add: discriminant_alpha)
  then have "sqrt (discriminant f q) < sqrt ((alpha f q)\<^sup>2)"
    by (simp only: real_sqrt_less_iff)
  then show ?thesis using a by simp
qed


text \<open>
  C4, as the code has it. On a second-order stage with \<open>f0 > 0\<close> and \<open>Q > 0\<close> every pole
  returned has a negative real part. For \<open>Q > 1/2\<close> the discriminant is negative and the
  poles are a complex-conjugate pair with non-zero imaginary parts; at \<open>Q = 1/2\<close> the
  discriminant is zero and both poles are the real pole \<open>- f0\<close>; for \<open>Q < 1/2\<close> the
  discriminant is positive and the poles are real and distinct.
\<close>

theorem C4_second_order_poles:
  assumes "0 < pvalue pf" "0 < pvalue pq"
  shows "(\<forall>p \<in> set (getPoles (SecondOrderLowPass i a pf pq)). re p < 0) \<and>
     (1 / 2 < pvalue pq \<longrightarrow>
        discriminant (pvalue pf) (pvalue pq) < 0 \<and>
        0 < sqrt (- discriminant (pvalue pf) (pvalue pq)) \<and>
        getPoles (SecondOrderLowPass i a pf pq) =
          [\<lparr>re = - alpha (pvalue pf) (pvalue pq), im = sqrt (- discriminant (pvalue pf) (pvalue pq))\<rparr>,
           \<lparr>re = - alpha (pvalue pf) (pvalue pq), im = - sqrt (- discriminant (pvalue pf) (pvalue pq))\<rparr>]) \<and>
     (pvalue pq = 1 / 2 \<longrightarrow>
        discriminant (pvalue pf) (pvalue pq) = 0 \<and>
        getPoles (SecondOrderLowPass i a pf pq) =
          [\<lparr>re = - pvalue pf, im = 0\<rparr>, \<lparr>re = - pvalue pf, im = 0\<rparr>]) \<and>
     (pvalue pq < 1 / 2 \<longrightarrow>
        0 < discriminant (pvalue pf) (pvalue pq) \<and>
        (\<forall>p \<in> set (getPoles (SecondOrderLowPass i a pf pq)). im p = 0) \<and>
        re (getPoles (SecondOrderLowPass i a pf pq) ! 0) \<noteq> re (getPoles (SecondOrderLowPass i a pf pq) ! 1))"
proof -
  let ?f = "pvalue pf" and ?q = "pvalue pq"
  note sg = discriminant_sign [OF assms]
  have al: "0 < alpha ?f ?q" using assms by (simp add: alpha_def)
  have neg: "\<forall>p \<in> set (getPoles (SecondOrderLowPass i a pf pq)). re p < 0"
  proof (cases "0 \<le> discriminant ?f ?q")
    case True
    have "0 \<le> sqrt (discriminant ?f ?q)" using True by simp
    with sqrt_disc_less_alpha [OF assms True] al
    have "- alpha ?f ?q + sqrt (discriminant ?f ?q) < 0"
      and "- alpha ?f ?q - sqrt (discriminant ?f ?q) < 0" by linarith+
    with True show ?thesis
      by (simp add: Let_def)
  next
    case False
    then show ?thesis using al by (simp add: Let_def)
  qed
  have c1: "1 / 2 < ?q \<longrightarrow>
        discriminant ?f ?q < 0 \<and> 0 < sqrt (- discriminant ?f ?q) \<and>
        getPoles (SecondOrderLowPass i a pf pq) =
          [\<lparr>re = - alpha ?f ?q, im = sqrt (- discriminant ?f ?q)\<rparr>,
           \<lparr>re = - alpha ?f ?q, im = - sqrt (- discriminant ?f ?q)\<rparr>]"
  proof
    assume "1 / 2 < ?q"
    then have d: "discriminant ?f ?q < 0" using sg by simp
    then show "discriminant ?f ?q < 0 \<and> 0 < sqrt (- discriminant ?f ?q) \<and>
        getPoles (SecondOrderLowPass i a pf pq) =
          [\<lparr>re = - alpha ?f ?q, im = sqrt (- discriminant ?f ?q)\<rparr>,
           \<lparr>re = - alpha ?f ?q, im = - sqrt (- discriminant ?f ?q)\<rparr>]"
      by (simp add: Let_def)
  qed
  have c2: "?q = 1 / 2 \<longrightarrow> discriminant ?f ?q = 0 \<and>
        getPoles (SecondOrderLowPass i a pf pq) =
          [\<lparr>re = - ?f, im = 0\<rparr>, \<lparr>re = - ?f, im = 0\<rparr>]"
  proof
    assume h: "?q = 1 / 2"
    then have d: "discriminant ?f ?q = 0" using sg by simp
    have "2 * ?q = 1" using h by simp
    then have "alpha ?f ?q = ?f" unfolding alpha_def by (simp only: div_by_1)
    with d show "discriminant ?f ?q = 0 \<and>
        getPoles (SecondOrderLowPass i a pf pq) =
          [\<lparr>re = - ?f, im = 0\<rparr>, \<lparr>re = - ?f, im = 0\<rparr>]"
      by (simp add: Let_def)
  qed
  have c3: "?q < 1 / 2 \<longrightarrow> 0 < discriminant ?f ?q \<and>
        (\<forall>p \<in> set (getPoles (SecondOrderLowPass i a pf pq)). im p = 0) \<and>
        re (getPoles (SecondOrderLowPass i a pf pq) ! 0) \<noteq> re (getPoles (SecondOrderLowPass i a pf pq) ! 1)"
  proof
    assume h: "?q < 1 / 2"
    have "\<not> discriminant ?f ?q < 0" "discriminant ?f ?q \<noteq> 0" using sg h by auto
    then have d: "0 < discriminant ?f ?q" by linarith
    then have "0 < sqrt (discriminant ?f ?q)" by simp
    with d show "0 < discriminant ?f ?q \<and>
        (\<forall>p \<in> set (getPoles (SecondOrderLowPass i a pf pq)). im p = 0) \<and>
        re (getPoles (SecondOrderLowPass i a pf pq) ! 0) \<noteq> re (getPoles (SecondOrderLowPass i a pf pq) ! 1)"
      by (simp add: Let_def)
  qed
  from neg c1 c2 c3 show ?thesis by blast
qed

text \<open>
  C4 as stated fails at \<open>Q = 0.5\<close>: the discriminant is 0, not negative, and the branch
  for real poles returns the double pole \<open>- f0\<close>.
\<close>

theorem C4_double_pole_at_half:
  "(1 / 2 :: real) \<ge> 0.5 \<and>
   \<not> discriminant 1 (1 / 2) < 0 \<and>
   getPoles (SecondOrderLowPass 1 True
      \<lparr>pvalue = 1, pmin = 0.8, pmax = 1.2, isAnimating = False, phase = 0\<rparr>
      \<lparr>pvalue = 1 / 2, pmin = 0.4, pmax = 0.6, isAnimating = False, phase = 0\<rparr>)
     = [\<lparr>re = - 1, im = 0\<rparr>, \<lparr>re = - 1, im = 0\<rparr>]"
  by (simp add: discriminant_def alpha_def Let_def)

theorem C4_second_order_poles_witness:
  "getPoles (SecondOrderLowPass 1 True
      \<lparr>pvalue = 2, pmin = 1, pmax = 3, isAnimating = False, phase = 0\<rparr>
      \<lparr>pvalue = 1, pmin = 0, pmax = 2, isAnimating = False, phase = 0\<rparr>)
     = [\<lparr>re = - 1, im = sqrt 3\<rparr>, \<lparr>re = - 1, im = - sqrt 3\<rparr>] \<and>
   getPoles (SecondOrderLowPass 2 True
      \<lparr>pvalue = 3, pmin = 1, pmax = 4, isAnimating = False, phase = 0\<rparr>
      \<lparr>pvalue = 1 / 2, pmin = 0, pmax = 2, isAnimating = False, phase = 0\<rparr>)
     = [\<lparr>re = - 3, im = 0\<rparr>, \<lparr>re = - 3, im = 0\<rparr>] \<and>
   getPoles (SecondOrderLowPass 3 True
      \<lparr>pvalue = 1, pmin = 0, pmax = 2, isAnimating = False, phase = 0\<rparr>
      \<lparr>pvalue = 1 / 4, pmin = 0, pmax = 2, isAnimating = False, phase = 0\<rparr>)
     = [\<lparr>re = - 2 + sqrt 3, im = 0\<rparr>, \<lparr>re = - 2 - sqrt 3, im = 0\<rparr>]"
  using C4_second_order_poles
      [of "\<lparr>pvalue = 2, pmin = 1, pmax = 3, isAnimating = False, phase = 0\<rparr>"
          "\<lparr>pvalue = 1, pmin = 0, pmax = 2, isAnimating = False, phase = 0\<rparr>" 1 True]
    C4_second_order_poles
      [of "\<lparr>pvalue = 3, pmin = 1, pmax = 4, isAnimating = False, phase = 0\<rparr>"
          "\<lparr>pvalue = 1 / 2, pmin = 0, pmax = 2, isAnimating = False, phase = 0\<rparr>" 2 True]
    C4_second_order_poles
      [of "\<lparr>pvalue = 1, pmin = 0, pmax = 2, isAnimating = False, phase = 0\<rparr>"
          "\<lparr>pvalue = 1 / 4, pmin = 0, pmax = 2, isAnimating = False, phase = 0\<rparr>" 3 True]
  by (simp add: discriminant_def alpha_def Let_def)

lemma log10_floor: "log 10 (1 / 10 ^ 10) = - 10"
proof -
  have a: "log 10 ((10::real) ^ 10) = 10"
    by (subst log_nat_power) auto
  have "log 10 (1 / (10::real) ^ 10) = log 10 1 - log 10 (10 ^ 10)"
    by (rule log_divide_pos) auto
  with a show ?thesis by simp
qed

lemma db_above_floor:
  assumes "1 / 10 ^ 10 < (m::real)"
  shows "- 200 \<le> 20 * log 10 m"
proof -
  have "(0::real) < 1 / 10 ^ 10" by simp
  with assms have "0 < m" by linarith
  have "log 10 (1 / 10 ^ 10) < log 10 m"
    using assms \<open>0 < m\<close> by (subst log_less_cancel_iff) auto
  then show ?thesis unfolding log10_floor by simp
qed

section \<open>Magnitudes on JavaScript numbers\<close>

lemma num_or_NaN_cases: "num_or_NaN v \<longleftrightarrow> v = NaN \<or> (\<exists>a. v = Num a)"
  by (cases v) simp_all

lemma num_or_NaN_neg: "num_or_NaN v \<Longrightarrow> num_or_NaN (js_neg v)"
  by (cases v) simp_all

lemma num_or_NaN_add: "num_or_NaN u \<Longrightarrow> num_or_NaN v \<Longrightarrow> num_or_NaN (js_add u v)"
  by (cases u; cases v) simp_all

lemma num_or_NaN_sub: "num_or_NaN u \<Longrightarrow> num_or_NaN v \<Longrightarrow> num_or_NaN (js_sub u v)"
  unfolding js_sub_def by (cases u; cases v) simp_all

lemma num_or_NaN_mul: "num_or_NaN u \<Longrightarrow> num_or_NaN v \<Longrightarrow> num_or_NaN (js_mul u v)"
  by (cases u; cases v) simp_all

lemma first_order_response_num_or_NaN:
  "num_or_NaN (jre (js_getResponse (FirstOrderLowPass i a pf) w)) \<and>
   num_or_NaN (jim (js_getResponse (FirstOrderLowPass i a pf) w))"
proof (cases "pvalue pf * pvalue pf + w * w = 0")
  case True
  then have "pvalue pf * pvalue pf = 0 \<and> w * w = 0"
    by (simp add: add_nonneg_eq_0_iff)
  then have "pvalue pf = 0" "w = 0" by simp_all
  then show ?thesis by (simp add: Let_def)
next
  case False
  then show ?thesis by (simp add: Let_def)
qed


lemma second_order_response_num_or_NaN:
  "num_or_NaN (jre (js_getResponse (SecondOrderLowPass i a pf pq) w)) \<and>
   num_or_NaN (jim (js_getResponse (SecondOrderLowPass i a pf pq) w))"
proof (cases "pvalue pq = 0")
  case q0: True
  show ?thesis
  proof (cases "pvalue pf = 0 \<or> w = 0")
    case True
    then show ?thesis using q0 by (auto simp: Let_def js_sub_def)
  next
    case False
    then have "pvalue pf \<noteq> 0" "w \<noteq> 0" by simp_all
    then have "(pvalue pf < 0 \<or> 0 < pvalue pf) \<and> (w < 0 \<or> 0 < w)" by auto
    then show ?thesis using q0 by (auto simp: Let_def js_sub_def)
  qed
next
  case q: False
  let ?rp = "pvalue pf * pvalue pf - w * w"
  let ?ip = "pvalue pf / pvalue pq * w"
  show ?thesis
  proof (cases "?rp * ?rp + ?ip * ?ip = 0")
    case True
    then have "?rp * ?rp = 0 \<and> ?ip * ?ip = 0"
      by (simp only: add_nonneg_eq_0_iff zero_le_square)
    then have z: "?rp = 0" "?ip = 0" by simp_all
    from z(2) q have "pvalue pf = 0 \<or> w = 0" by simp
    moreover from z(1) have "pvalue pf * pvalue pf = w * w" by simp
    ultimately have "pvalue pf = 0 \<and> w = 0" by auto
    then show ?thesis using q by (simp add: Let_def js_sub_def)
  next
    case False
    then show ?thesis using q by (simp add: Let_def js_sub_def)
  qed
qed

lemma response_num_or_NaN:
  "num_or_NaN (jre (js_getResponse s w)) \<and> num_or_NaN (jim (js_getResponse s w))"
  by (cases s) (simp_all only: first_order_response_num_or_NaN second_order_response_num_or_NaN)

lemma js_response_loop_num_or_NaN:
  assumes "num_or_NaN (fst acc)" "num_or_NaN (snd acc)"
  shows "num_or_NaN (fst (js_response_loop ss w acc)) \<and> num_or_NaN (snd (js_response_loop ss w acc))"
  using assms
proof (induction ss w acc rule: js_response_loop.induct)
  case (1 w acc)
  then show ?case by simp
next
  case (2 s ss w r i)
  show ?case
  proof (cases "active s")
    case False
    then show ?thesis using 2 by simp
  next
    case True
    note h = response_num_or_NaN [of s w]
    have a: "num_or_NaN (js_sub (js_mul r (jre (js_getResponse s w))) (js_mul i (jim (js_getResponse s w))))"
      using 2(3,4) h by (intro num_or_NaN_sub num_or_NaN_mul) simp_all
    have b: "num_or_NaN (js_add (js_mul r (jim (js_getResponse s w))) (js_mul i (jre (js_getResponse s w))))"
      using 2(3,4) h by (intro num_or_NaN_add num_or_NaN_mul) simp_all
    from 2(2) [OF _ refl refl refl] True a b show ?thesis by (simp add: Let_def)
  qed
qed

lemma magnitude_of_num_or_NaN:
  assumes "num_or_NaN u" "num_or_NaN v"
  shows "js_sqrt (js_add (js_mul u u) (js_mul v v)) = NaN \<or>
         (\<exists>m\<ge>0. js_sqrt (js_add (js_mul u u) (js_mul v v)) = Num m)"
  using assms by (cases u; cases v) simp_all


lemma js_db_floor:
  "js_le (Num (- 200))
     (if js_num_gt v (1 / 10 ^ 10) then js_mul (Num 20) (js_log10 v) else Num (- 200))"
proof (cases v)
  case (Num m)
  show ?thesis
  proof (cases "1 / 10 ^ 10 < m")
    case True
    have "(0::real) < 1 / 10 ^ 10" by simp
    with True have "0 < m" by linarith
    with True db_above_floor [OF True] show ?thesis unfolding Num by simp
  next
    case False
    then show ?thesis unfolding Num by simp
  qed
qed simp_all

lemma js_db_finite:
  assumes "0 \<le> m"
  shows "(if js_num_gt (Num m) (1 / 10 ^ 10) then js_mul (Num 20) (js_log10 (Num m)) else Num (- 200))
       = Num (if m > 1 / 10 ^ 10 then 20 * log 10 m else - 200)"
proof (cases "1 / 10 ^ 10 < m")
  case True
  have "(0::real) < 1 / 10 ^ 10" by simp
  with True have "0 < m" by linarith
  with True show ?thesis by simp
next
  case False
  then show ?thesis by simp
qed

lemma js_getResponse_finite:
  assumes "stage_ok s"
  shows "js_getResponse s w = \<lparr>jre = Num (re (getResponse s w)), jim = Num (im (getResponse s w))\<rparr>"
proof (cases s)
  case (FirstOrderLowPass i a pf)
  with assms have f: "0 < pvalue pf" by simp
  then have "0 < pvalue pf * pvalue pf" by simp
  moreover have "0 \<le> w * w" by simp
  ultimately have "pvalue pf * pvalue pf + w * w \<noteq> 0" by linarith
  then show ?thesis unfolding FirstOrderLowPass by (simp add: Let_def)
next
  case (SecondOrderLowPass i a pf pq)
  with assms have f: "0 < pvalue pf" and q: "0 < pvalue pq" by simp_all
  let ?rp = "pvalue pf * pvalue pf - w * w"
  let ?ip = "pvalue pf / pvalue pq * w"
  have d: "?rp * ?rp + ?ip * ?ip \<noteq> 0"
  proof
    assume "?rp * ?rp + ?ip * ?ip = 0"
    then have "?rp * ?rp = 0 \<and> ?ip * ?ip = 0"
      by (simp only: add_nonneg_eq_0_iff zero_le_square)
    then have z: "?rp = 0" "?ip = 0" by simp_all
    from z(2) f q have "w = 0" by simp
    with z(1) f show False by simp
  qed
  have q0: "pvalue pq \<noteq> 0" using q by simp
  show ?thesis unfolding SecondOrderLowPass using d q0 by (simp add: Let_def js_sub_def)
qed

lemma js_magnitude_finite:
  "js_sqrt (js_add (js_mul (Num x) (Num x)) (js_mul (Num y) (Num y))) = Num (sqrt (x * x + y * y))"
proof -
  have "0 \<le> x * x + y * y" by simp
  then have "\<not> x * x + y * y < 0" by linarith
  then show ?thesis by simp
qed

lemma js_getMagnitude_finite:
  assumes "stage_ok s"
  shows "js_getMagnitude s w = Num (getMagnitude s w)"
  unfolding js_getMagnitude_def getMagnitude_def Let_def js_getResponse_finite [OF assms]
  by (simp only: jscplx.simps js_magnitude_finite)

lemma getMagnitude_nonneg: "0 \<le> getMagnitude s w"
  by (simp add: getMagnitude_def Let_def)

lemma js_getMagnitudeDb_finite:
  assumes "stage_ok s"
  shows "js_getMagnitudeDb s w = Num (getMagnitudeDb s w)"
  unfolding js_getMagnitudeDb_def getMagnitudeDb_def Let_def js_getMagnitude_finite [OF assms]
  by (rule js_db_finite [OF getMagnitude_nonneg])

lemma js_response_loop_finite:
  assumes "\<forall>t \<in> set ss. active t \<longrightarrow> stage_ok t"
  shows "js_response_loop ss w (Num r, Num i) =
           (Num (fst (response_loop ss w (r, i))), Num (snd (response_loop ss w (r, i))))"
  using assms
proof (induction ss arbitrary: r i)
  case Nil
  then show ?case by simp
next
  case (Cons s ss)
  show ?case
  proof (cases "active s")
    case False
    then show ?thesis using Cons by simp
  next
    case True
    with Cons.prems have ok: "stage_ok s" by simp
    from Cons.prems have rest: "\<forall>t \<in> set ss. active t \<longrightarrow> stage_ok t" by simp
    show ?thesis
      using True Cons.IH [OF rest]
      by (simp add: Let_def js_getResponse_finite [OF ok] js_sub_def)
  qed
qed

lemma js_cascade_getResponse_finite:
  assumes "\<forall>t \<in> set (stages c). active t \<longrightarrow> stage_ok t"
  shows "js_cascade_getResponse c w =
     \<lparr>jre = Num (re (cascade_getResponse c w)), jim = Num (im (cascade_getResponse c w))\<rparr>"
  unfolding js_cascade_getResponse_def cascade_getResponse_def
    js_response_loop_finite [OF assms]
  by (simp add: Let_def case_prod_beta)

lemma cascade_getMagnitude_nonneg: "0 \<le> cascade_getMagnitude c w"
  by (simp add: cascade_getMagnitude_def Let_def)

lemma js_cascade_getMagnitude_finite:
  assumes "\<forall>t \<in> set (stages c). active t \<longrightarrow> stage_ok t"
  shows "js_cascade_getMagnitude c w = Num (cascade_getMagnitude c w)"
  unfolding js_cascade_getMagnitude_def cascade_getMagnitude_def Let_def
    js_cascade_getResponse_finite [OF assms]
  by (simp only: jscplx.simps js_magnitude_finite)

lemma js_cascade_getMagnitudeDb_finite:
  assumes "\<forall>t \<in> set (stages c). active t \<longrightarrow> stage_ok t"
  shows "js_cascade_getMagnitudeDb c w = Num (cascade_getMagnitudeDb c w)"
  unfolding js_cascade_getMagnitudeDb_def cascade_getMagnitudeDb_def Let_def
    js_cascade_getMagnitude_finite [OF assms]
  by (rule js_db_finite [OF cascade_getMagnitude_nonneg])

lemma js_getMagnitude_range:
  "js_getMagnitude s w = NaN \<or> (\<exists>m\<ge>0. js_getMagnitude s w = Num m)"
  unfolding js_getMagnitude_def Let_def
  using response_num_or_NaN [of s w] by (intro magnitude_of_num_or_NaN) simp_all

lemma js_cascade_getMagnitude_range:
  "js_cascade_getMagnitude c w = NaN \<or> (\<exists>m\<ge>0. js_cascade_getMagnitude c w = Num m)"
proof -
  have l: "num_or_NaN (fst (js_response_loop (stages c) w (Num 1, Num 0))) \<and>
           num_or_NaN (snd (js_response_loop (stages c) w (Num 1, Num 0)))"
    by (rule js_response_loop_num_or_NaN) simp_all
  have g: "num_or_NaN (Num (10 powr (globalGainDb c / 20)))" by simp
  have "num_or_NaN (jre (js_cascade_getResponse c w)) \<and> num_or_NaN (jim (js_cascade_getResponse c w))"
    unfolding js_cascade_getResponse_def Let_def case_prod_beta
    using l g by (simp del: num_or_NaN.simps add: num_or_NaN_mul)
  then show ?thesis
    unfolding js_cascade_getMagnitude_def Let_def
    by (intro magnitude_of_num_or_NaN) simp_all
qed


text \<open>
  C5, as the code has it. For every stage and every cascade, at every frequency: the
  magnitude is \<open>NaN\<close> or a finite number that is not negative; the magnitude in dB is at
  least \<open>-200\<close>; it is \<open>20 * log10(magnitude)\<close> when the magnitude exceeds \<open>1e-10\<close> and
  exactly \<open>-200\<close> otherwise, that is when the magnitude is at most \<open>1e-10\<close> and also when
  it is \<open>NaN\<close>. On a stage with \<open>f0 > 0\<close> and \<open>Q > 0\<close>, and on a cascade whose active stages
  are such, the magnitude is a finite number that is not negative.
\<close>

theorem C5_magnitude_db_on_js_numbers:
  "(js_getMagnitude s w = NaN \<or> (\<exists>m\<ge>0. js_getMagnitude s w = Num m)) \<and>
   js_le (Num (- 200)) (js_getMagnitudeDb s w) \<and>
   (js_num_gt (js_getMagnitude s w) (1 / 10 ^ 10) \<longrightarrow>
      js_getMagnitudeDb s w = js_mul (Num 20) (js_log10 (js_getMagnitude s w))) \<and>
   (\<not> js_num_gt (js_getMagnitude s w) (1 / 10 ^ 10) \<longrightarrow> js_getMagnitudeDb s w = Num (- 200)) \<and>
   (js_getMagnitude s w = NaN \<longrightarrow> js_getMagnitudeDb s w = Num (- 200)) \<and>
   (stage_ok s \<longrightarrow>
      (\<exists>m\<ge>0. js_getMagnitude s w = Num m \<and>
         js_getMagnitudeDb s w = Num (if m > 1 / 10 ^ 10 then 20 * log 10 m else - 200))) \<and>
   (js_cascade_getMagnitude c w = NaN \<or> (\<exists>m\<ge>0. js_cascade_getMagnitude c w = Num m)) \<and>
   js_le (Num (- 200)) (js_cascade_getMagnitudeDb c w) \<and>
   (js_num_gt (js_cascade_getMagnitude c w) (1 / 10 ^ 10) \<longrightarrow>
      js_cascade_getMagnitudeDb c w = js_mul (Num 20) (js_log10 (js_cascade_getMagnitude c w))) \<and>
   (\<not> js_num_gt (js_cascade_getMagnitude c w) (1 / 10 ^ 10) \<longrightarrow>
      js_cascade_getMagnitudeDb c w = Num (- 200)) \<and>
   (js_cascade_getMagnitude c w = NaN \<longrightarrow> js_cascade_getMagnitudeDb c w = Num (- 200)) \<and>
   ((\<forall>t \<in> set (stages c). active t \<longrightarrow> stage_ok t) \<longrightarrow>
      (\<exists>m\<ge>0. js_cascade_getMagnitude c w = Num m \<and>
         js_cascade_getMagnitudeDb c w = Num (if m > 1 / 10 ^ 10 then 20 * log 10 m else - 200)))"
proof -
  have s1: "js_getMagnitude s w = NaN \<or> (\<exists>m\<ge>0. js_getMagnitude s w = Num m)"
    by (rule js_getMagnitude_range)
  have s2: "js_le (Num (- 200)) (js_getMagnitudeDb s w)"
    unfolding js_getMagnitudeDb_def Let_def by (rule js_db_floor)
  have s3: "js_num_gt (js_getMagnitude s w) (1 / 10 ^ 10) \<longrightarrow>
      js_getMagnitudeDb s w = js_mul (Num 20) (js_log10 (js_getMagnitude s w))"
    by (simp add: js_getMagnitudeDb_def Let_def)
  have s4: "\<not> js_num_gt (js_getMagnitude s w) (1 / 10 ^ 10) \<longrightarrow> js_getMagnitudeDb s w = Num (- 200)"
    by (simp add: js_getMagnitudeDb_def Let_def)
  have s5: "js_getMagnitude s w = NaN \<longrightarrow> js_getMagnitudeDb s w = Num (- 200)"
    by (simp add: js_getMagnitudeDb_def Let_def)
  have s6: "stage_ok s \<longrightarrow>
      (\<exists>m\<ge>0. js_getMagnitude s w = Num m \<and>
         js_getMagnitudeDb s w = Num (if m > 1 / 10 ^ 10 then 20 * log 10 m else - 200))"
  proof
    assume ok: "stage_ok s"
    have "js_getMagnitudeDb s w = Num (if getMagnitude s w > 1 / 10 ^ 10
            then 20 * log 10 (getMagnitude s w) else - 200)"
      unfolding js_getMagnitudeDb_finite [OF ok] getMagnitudeDb_def Let_def ..
    with js_getMagnitude_finite [OF ok] getMagnitude_nonneg [of s w]
    show "\<exists>m\<ge>0. js_getMagnitude s w = Num m \<and>
         js_getMagnitudeDb s w = Num (if m > 1 / 10 ^ 10 then 20 * log 10 m else - 200)"
      by blast
  qed
  have c1: "js_cascade_getMagnitude c w = NaN \<or> (\<exists>m\<ge>0. js_cascade_getMagnitude c w = Num m)"
    by (rule js_cascade_getMagnitude_range)
  have c2: "js_le (Num (- 200)) (js_cascade_getMagnitudeDb c w)"
    unfolding js_cascade_getMagnitudeDb_def Let_def by (rule js_db_floor)
  have c3: "js_num_gt (js_cascade_getMagnitude c w) (1 / 10 ^ 10) \<longrightarrow>
      js_cascade_getMagnitudeDb c w = js_mul (Num 20) (js_log10 (js_cascade_getMagnitude c w))"
    by (simp add: js_cascade_getMagnitudeDb_def Let_def)
  have c4: "\<not> js_num_gt (js_cascade_getMagnitude c w) (1 / 10 ^ 10) \<longrightarrow>
      js_cascade_getMagnitudeDb c w = Num (- 200)"
    by (simp add: js_cascade_getMagnitudeDb_def Let_def)
  have c5: "js_cascade_getMagnitude c w = NaN \<longrightarrow> js_cascade_getMagnitudeDb c w = Num (- 200)"
    by (simp add: js_cascade_getMagnitudeDb_def Let_def)
  have c6: "(\<forall>t \<in> set (stages c). active t \<longrightarrow> stage_ok t) \<longrightarrow>
      (\<exists>m\<ge>0. js_cascade_getMagnitude c w = Num m \<and>
         js_cascade_getMagnitudeDb c w = Num (if m > 1 / 10 ^ 10 then 20 * log 10 m else - 200))"
  proof
    assume ok: "\<forall>t \<in> set (stages c). active t \<longrightarrow> stage_ok t"
    have "js_cascade_getMagnitudeDb c w = Num (if cascade_getMagnitude c w > 1 / 10 ^ 10
            then 20 * log 10 (cascade_getMagnitude c w) else - 200)"
      unfolding js_cascade_getMagnitudeDb_finite [OF ok] cascade_getMagnitudeDb_def Let_def ..
    with js_cascade_getMagnitude_finite [OF ok] cascade_getMagnitude_nonneg [of c w]
    show "\<exists>m\<ge>0. js_cascade_getMagnitude c w = Num m \<and>
         js_cascade_getMagnitudeDb c w = Num (if m > 1 / 10 ^ 10 then 20 * log 10 m else - 200)"
      by blast
  qed
  from s1 s2 s3 s4 s5 s6 c1 c2 c3 c4 c5 c6 show ?thesis by (intro conjI)
qed

theorem C5_magnitude_db_on_js_numbers_witness:
  "js_getMagnitude (FirstOrderLowPass 1 True
      \<lparr>pvalue = 1, pmin = 0.8, pmax = 1.2, isAnimating = False, phase = 0\<rparr>) 0 = Num 1 \<and>
   js_getMagnitudeDb (FirstOrderLowPass 1 True
      \<lparr>pvalue = 1, pmin = 0.8, pmax = 1.2, isAnimating = False, phase = 0\<rparr>) 0 = Num 0 \<and>
   js_cascade_getMagnitudeDb
      \<lparr>stages = [FirstOrderLowPass 1 True
          \<lparr>pvalue = 1, pmin = 0.8, pmax = 1.2, isAnimating = False, phase = 0\<rparr>],
       animationSpeed = 1, globalGainDb = 0\<rparr> 0 = Num 0 \<and>
   js_getMagnitudeDb (FirstOrderLowPass 2 True
      \<lparr>pvalue = 0, pmin = 0, pmax = 0, isAnimating = False, phase = 0\<rparr>) 0 = Num (- 200) \<and>
   js_cascade_getMagnitudeDb
      \<lparr>stages = [FirstOrderLowPass 2 True
          \<lparr>pvalue = 0, pmin = 0, pmax = 0, isAnimating = False, phase = 0\<rparr>],
       animationSpeed = 1, globalGainDb = 0\<rparr> 0 = Num (- 200)"
  using C5_magnitude_db_on_js_numbers
      [of "FirstOrderLowPass 1 True
             \<lparr>pvalue = 1, pmin = 0.8, pmax = 1.2, isAnimating = False, phase = 0\<rparr>" 0
          "\<lparr>stages = [FirstOrderLowPass 1 True
             \<lparr>pvalue = 1, pmin = 0.8, pmax = 1.2, isAnimating = False, phase = 0\<rparr>],
           animationSpeed = 1, globalGainDb = 0\<rparr>"]
    C5_magnitude_db_on_js_numbers
      [of "FirstOrderLowPass 2 True
             \<lparr>pvalue = 0, pmin = 0, pmax = 0, isAnimating = False, phase = 0\<rparr>" 0
          "\<lparr>stages = [FirstOrderLowPass 2 True
             \<lparr>pvalue = 0, pmin = 0, pmax = 0, isAnimating = False, phase = 0\<rparr>],
           animationSpeed = 1, globalGainDb = 0\<rparr>"]
  by (simp add: js_getMagnitude_def js_getMagnitudeDb_def js_cascade_getMagnitude_def
        js_cascade_getMagnitudeDb_def js_cascade_getResponse_def Let_def js_sub_def)

text \<open>
  C5 as stated fails on a second-order stage with \<open>f0 = 1\<close> and \<open>Q = 0\<close> at \<open>w = 2\<close>: the
  imaginary part of the response is \<open>Infinity / Infinity\<close>, the magnitude is \<open>NaN\<close>, which is
  neither \<open>\<ge> 0\<close> nor \<open>\<le> 1e-10\<close>, and the magnitude in dB is \<open>-200\<close> while
  \<open>20 * log10(magnitude)\<close> is \<open>NaN\<close>.
\<close>

theorem C5_zero_Q_magnitude_is_NaN:
  "js_getMagnitude (SecondOrderLowPass 1 True
      \<lparr>pvalue = 1, pmin = 0, pmax = 2, isAnimating = False, phase = 0\<rparr>
      \<lparr>pvalue = 0, pmin = 0, pmax = 0, isAnimating = False, phase = 0\<rparr>) 2 = NaN \<and>
   \<not> js_le (Num 0) (js_getMagnitude (SecondOrderLowPass 1 True
      \<lparr>pvalue = 1, pmin = 0, pmax = 2, isAnimating = False, phase = 0\<rparr>
      \<lparr>pvalue = 0, pmin = 0, pmax = 0, isAnimating = False, phase = 0\<rparr>) 2) \<and>
   \<not> js_le (js_getMagnitude (SecondOrderLowPass 1 True
      \<lparr>pvalue = 1, pmin = 0, pmax = 2, isAnimating = False, phase = 0\<rparr>
      \<lparr>pvalue = 0, pmin = 0, pmax = 0, isAnimating = False, phase = 0\<rparr>) 2) (Num (1 / 10 ^ 10)) \<and>
   js_getMagnitudeDb (SecondOrderLowPass 1 True
      \<lparr>pvalue = 1, pmin = 0, pmax = 2, isAnimating = False, phase = 0\<rparr>
      \<lparr>pvalue = 0, pmin = 0, pmax = 0, isAnimating = False, phase = 0\<rparr>) 2 = Num (- 200) \<and>
   js_mul (Num 20) (js_log10 (js_getMagnitude (SecondOrderLowPass 1 True
      \<lparr>pvalue = 1, pmin = 0, pmax = 2, isAnimating = False, phase = 0\<rparr>
      \<lparr>pvalue = 0, pmin = 0, pmax = 0, isAnimating = False, phase = 0\<rparr>) 2)) = NaN"
  by (simp add: js_getMagnitudeDb_def js_getMagnitude_def Let_def js_sub_def)

section \<open>Properties of the Chebyshev solver\<close>

lemma ten_powr_gt_one: "0 < x \<Longrightarrow> 1 < (10::real) powr x"
  using powr_less_mono [of 0 x 10] by simp

lemma ten_powr_lt_one: "x < 0 \<Longrightarrow> (10::real) powr x < 1"
  using powr_less_mono [of x 0 10] by simp

text \<open>The value of \<open>getMinOrder\<close> on a feasible specification.\<close>

lemma getMinOrder_feasible:
  assumes "feasible wp ws Ap As"
  shows "getMinOrder wp ws Ap As =
     Num (of_int \<lceil>arcosh (sqrt (10 powr (As / 20) * 10 powr (As / 20) - 1) / sqrt (10 powr (Ap / 10) - 1))
                  / arcosh (ws / wp)\<rceil>)"
proof -
  from assms have wp: "0 < wp" and ws: "wp < ws" and Ap: "0 < Ap" and As: "Ap < As"
    and arg: "1 \<le> sqrt (10 powr (As / 20) * 10 powr (As / 20) - 1) / sqrt (10 powr (Ap / 10) - 1)"
    by (simp_all add: feasible_def)
  have e: "0 < 10 powr (Ap / 10) - 1" using ten_powr_gt_one [of "Ap / 10"] Ap by simp
  then have "0 < sqrt (10 powr (Ap / 10) - 1)" by (rule real_sqrt_gt_zero)
  then have se: "sqrt (10 powr (Ap / 10) - 1) \<noteq> 0" by linarith
  have "1 < 10 powr (As / 20)" using ten_powr_gt_one [of "As / 20"] Ap As by simp
  then have "1 * 1 < 10 powr (As / 20) * 10 powr (As / 20)"
    by (intro mult_strict_mono) auto
  then have a: "\<not> 10 powr (As / 20) * 10 powr (As / 20) - 1 < 0" by simp
  have r: "1 < ws / wp" using wp ws by simp
  have "arcosh 1 < arcosh (ws / wp)" using r by (intro arcosh_real_strict_mono) auto
  then have ar: "arcosh (ws / wp) \<noteq> 0" by simp
  have wp0: "wp \<noteq> 0" using wp by simp
  show ?thesis
    unfolding getMinOrder_def Let_def
    using e se a r ar wp0 arg by simp
qed


lemma js_div_NaN_right: "js_div v NaN = NaN"
  by (cases v) simp_all

lemma js_div_NaN_left: "js_div NaN v = NaN"
  by (cases v) simp_all

lemma js_acosh_cases:
  "js_acosh v = NaN \<or> js_acosh v = PosInf \<or> (\<exists>a\<ge>0. js_acosh v = Num a)"
  by (cases v) auto

lemma js_sqrt_Num_cases:
  "js_sqrt (Num x) = NaN \<or> (\<exists>a\<ge>0. js_sqrt (Num x) = Num a)"
  by auto

lemma js_div_nonfinite_acosh:
  assumes "X = NaN \<or> X = PosInf"
  shows "js_div X (js_acosh r) = NaN \<or> js_div X (js_acosh r) = PosInf"
  using assms js_acosh_cases [of r] by (auto simp: js_div_NaN_left)

lemma js_acosh_nonfinite:
  "X = NaN \<or> X = PosInf \<Longrightarrow> js_acosh X = NaN \<or> js_acosh X = PosInf"
  by auto

lemma js_ceil_nonfinite:
  "X = NaN \<or> X = PosInf \<Longrightarrow> js_ceil X = NaN \<or> js_ceil X = PosInf"
  by auto

lemma getMinOrder_stopband_below:
  assumes "0 < wp" "ws < wp"
  shows "getMinOrder wp ws Ap As = NaN"
proof -
  have "ws / wp < 1" using assms by simp
  then have "js_acosh (js_div (Num ws) (Num wp)) = NaN" using assms(1) by simp
  then show ?thesis by (simp add: getMinOrder_def Let_def js_div_NaN_right)
qed

lemma getMinOrder_negative_ripple:
  assumes "Ap < 0"
  shows "getMinOrder wp ws Ap As = NaN"
proof -
  have "10 powr (Ap / 10) - 1 < 0" using ten_powr_lt_one [of "Ap / 10"] assms by simp
  then have "js_sqrt (Num (10 powr (Ap / 10) - 1)) = NaN" by simp
  then show ?thesis
    by (simp add: getMinOrder_def Let_def js_div_NaN_right js_div_NaN_left)
qed

lemma getMinOrder_small_argument:
  assumes "0 < Ap" "0 \<le> As"
    and "sqrt (10 powr (As / 20) * 10 powr (As / 20) - 1) / sqrt (10 powr (Ap / 10) - 1) < 1"
  shows "getMinOrder wp ws Ap As = NaN"
proof -
  have e: "0 < 10 powr (Ap / 10) - 1" using ten_powr_gt_one [of "Ap / 10"] assms(1) by simp
  then have "0 < sqrt (10 powr (Ap / 10) - 1)" by (rule real_sqrt_gt_zero)
  then have se: "sqrt (10 powr (Ap / 10) - 1) \<noteq> 0" by linarith
  have "1 \<le> 10 powr (As / 20)" using assms(2) by (intro ge_one_powr_ge_zero) auto
  then have "1 * 1 \<le> 10 powr (As / 20) * 10 powr (As / 20)"
    by (intro mult_mono) auto
  then have a: "\<not> 10 powr (As / 20) * 10 powr (As / 20) - 1 < 0" by simp
  have "js_acosh (js_div (js_sqrt (Num (10 powr (As / 20) * 10 powr (As / 20) - 1)))
          (js_sqrt (Num (10 powr (Ap / 10) - 1)))) = NaN"
    using e se a assms(3) by simp
  then show ?thesis
    by (simp add: getMinOrder_def Let_def js_div_NaN_left)
qed

lemma getMinOrder_equal_edges:
  assumes "0 < wp" "ws = wp"
  shows "getMinOrder wp ws Ap As = NaN \<or> getMinOrder wp ws Ap As = PosInf"
proof -
  let ?X = "js_acosh (js_div (js_sqrt (Num (10 powr (As / 20) * 10 powr (As / 20) - 1)))
          (js_sqrt (Num (10 powr (Ap / 10) - 1))))"
  have r: "js_acosh (js_div (Num ws) (Num wp)) = Num 0" using assms by simp
  have "js_div ?X (Num 0) = NaN \<or> js_div ?X (Num 0) = PosInf"
    using js_acosh_cases [of "js_div (js_sqrt (Num (10 powr (As / 20) * 10 powr (As / 20) - 1)))
          (js_sqrt (Num (10 powr (Ap / 10) - 1)))"]
    by auto
  then have "js_ceil (js_div ?X (Num 0)) = NaN \<or> js_ceil (js_div ?X (Num 0)) = PosInf"
    by (rule js_ceil_nonfinite)
  then show ?thesis unfolding getMinOrder_def Let_def r .
qed

lemma getMinOrder_zero_ripple:
  assumes "Ap = 0"
  shows "getMinOrder wp ws Ap As = NaN \<or> getMinOrder wp ws Ap As = PosInf"
proof -
  let ?S = "js_sqrt (Num (10 powr (As / 20) * 10 powr (As / 20) - 1))"
  have e: "js_sqrt (Num (10 powr (Ap / 10) - 1)) = Num 0" using assms by simp
  have "js_div ?S (Num 0) = NaN \<or> js_div ?S (Num 0) = PosInf"
    using js_sqrt_Num_cases [of "10 powr (As / 20) * 10 powr (As / 20) - 1"] by auto
  then have "js_acosh (js_div ?S (Num 0)) = NaN \<or> js_acosh (js_div ?S (Num 0)) = PosInf"
    by (rule js_acosh_nonfinite)
  then have "js_div (js_acosh (js_div ?S (Num 0))) (js_acosh (js_div (Num ws) (Num wp))) = NaN
       \<or> js_div (js_acosh (js_div ?S (Num 0))) (js_acosh (js_div (Num ws) (Num wp))) = PosInf"
    by (rule js_div_nonfinite_acosh)
  then have "js_ceil (js_div (js_acosh (js_div ?S (Num 0))) (js_acosh (js_div (Num ws) (Num wp)))) = NaN
       \<or> js_ceil (js_div (js_acosh (js_div ?S (Num 0))) (js_acosh (js_div (Num ws) (Num wp)))) = PosInf"
    by (rule js_ceil_nonfinite)
  then show ?thesis unfolding getMinOrder_def Let_def e .
qed

text \<open>
  C2, as the code has it. \<open>getMinOrder\<close> has no \<open>InfeasibleSpecification\<close> error and never
  fails; on an infeasible specification it returns a value that is not a finite number.
  It returns \<open>NaN\<close> when \<open>ws < wp\<close> (with \<open>wp > 0\<close>), when \<open>Ap < 0\<close>, and when \<open>Ap > 0\<close>,
  \<open>As \<ge> 0\<close> and \<open>sqrt(A\<^sup>2 - 1) / epsilon < 1\<close>. On the boundaries \<open>ws = wp\<close> (with
  \<open>wp > 0\<close>) and \<open>Ap = 0\<close> it returns \<open>NaN\<close> or \<open>Infinity\<close>.
\<close>

theorem C2_infeasible_is_not_rejected:
  "((0 < wp \<and> ws < wp) \<or> Ap < 0 \<or>
    (0 < Ap \<and> 0 \<le> As \<and>
       sqrt (10 powr (As / 20) * 10 powr (As / 20) - 1) / sqrt (10 powr (Ap / 10) - 1) < 1)
      \<longrightarrow> getMinOrder wp ws Ap As = NaN) \<and>
   ((0 < wp \<and> ws \<le> wp) \<or> Ap \<le> 0 \<or>
    (0 < Ap \<and> 0 \<le> As \<and>
       sqrt (10 powr (As / 20) * 10 powr (As / 20) - 1) / sqrt (10 powr (Ap / 10) - 1) < 1)
      \<longrightarrow> getMinOrder wp ws Ap As = NaN \<or> getMinOrder wp ws Ap As = PosInf)"
proof -
  have a: "(0 < wp \<and> ws < wp) \<or> Ap < 0 \<or>
    (0 < Ap \<and> 0 \<le> As \<and>
       sqrt (10 powr (As / 20) * 10 powr (As / 20) - 1) / sqrt (10 powr (Ap / 10) - 1) < 1)
      \<longrightarrow> getMinOrder wp ws Ap As = NaN"
    using getMinOrder_stopband_below getMinOrder_negative_ripple getMinOrder_small_argument
    by blast
  have b: "(0 < wp \<and> ws = wp) \<or> Ap = 0 \<longrightarrow>
      getMinOrder wp ws Ap As = NaN \<or> getMinOrder wp ws Ap As = PosInf"
    using getMinOrder_equal_edges getMinOrder_zero_ripple by blast
  have c: "ws \<le> wp \<longleftrightarrow> ws < wp \<or> ws = wp" "Ap \<le> 0 \<longleftrightarrow> Ap < 0 \<or> Ap = 0" by auto
  from a b show ?thesis unfolding c by blast
qed

theorem C2_infeasible_is_not_rejected_witness:
  "getMinOrder 1 3 (- 1) 30 = NaN \<and> getMinOrder 2 1 3 30 = NaN \<and>
   (getMinOrder 1 1 3 30 = NaN \<or> getMinOrder 1 1 3 30 = PosInf) \<and>
   (getMinOrder 1 3 0 30 = NaN \<or> getMinOrder 1 3 0 30 = PosInf)"
  using C2_infeasible_is_not_rejected [of 1 3 "- 1" 30]
    C2_infeasible_is_not_rejected [of 2 1 3 30]
    C2_infeasible_is_not_rejected [of 1 1 3 30]
    C2_infeasible_is_not_rejected [of 1 3 0 30]
  by simp

text \<open>
  C2 as stated fails: with the band edges inverted, \<open>wp = 3\<close> and \<open>ws = 1\<close>, the call
  returns \<open>NaN\<close>.
\<close>

theorem C2_inverted_edges_return_NaN:
  "getMinOrder 3 1 3 30 = NaN"
  by (simp add: getMinOrder_def Let_def js_div_NaN_right)


lemma feasible_argument_mono:
  assumes "0 < Ap" "Ap < As" "As \<le> As'"
  shows "sqrt (10 powr (As / 20) * 10 powr (As / 20) - 1) / sqrt (10 powr (Ap / 10) - 1)
       \<le> sqrt (10 powr (As' / 20) * 10 powr (As' / 20) - 1) / sqrt (10 powr (Ap / 10) - 1)"
proof -
  have e: "0 < 10 powr (Ap / 10) - 1" using ten_powr_gt_one [of "Ap / 10"] assms(1) by simp
  then have se: "0 < sqrt (10 powr (Ap / 10) - 1)" by (rule real_sqrt_gt_zero)
  have "10 powr (As / 20) \<le> 10 powr (As' / 20)"
    using assms(3) by (intro powr_mono) auto
  then have "10 powr (As / 20) * 10 powr (As / 20) \<le> 10 powr (As' / 20) * 10 powr (As' / 20)"
    by (intro mult_mono) auto
  then have "sqrt (10 powr (As / 20) * 10 powr (As / 20) - 1)
      \<le> sqrt (10 powr (As' / 20) * 10 powr (As' / 20) - 1)"
    by simp
  then show ?thesis using se by (simp add: divide_right_mono)
qed

lemma arcosh_real_mono:
  fixes x y :: real
  assumes "1 \<le> x" "x \<le> y"
  shows "arcosh x \<le> arcosh y"
proof (cases "x = y")
  case True
  then show ?thesis by simp
next
  case False
  with assms have "x < y" by simp
  with assms(1) have "arcosh x < arcosh y" by (rule arcosh_real_strict_mono)
  then show ?thesis by simp
qed

lemma getMinOrder_mono_As:
  assumes f: "feasible wp ws Ap As" and f': "feasible wp ws Ap As'" and le: "As \<le> As'"
  shows "js_le (getMinOrder wp ws Ap As) (getMinOrder wp ws Ap As')"
proof -
  let ?arg = "\<lambda>a. sqrt (10 powr (a / 20) * 10 powr (a / 20) - 1) / sqrt (10 powr (Ap / 10) - 1)"
  from f have Ap: "0 < Ap" "Ap < As" and one: "1 \<le> ?arg As" and w: "0 < wp" "wp < ws"
    by (simp_all add: feasible_def)
  have "?arg As \<le> ?arg As'" using Ap le by (rule feasible_argument_mono)
  with one have n: "arcosh (?arg As) \<le> arcosh (?arg As')" by (rule arcosh_real_mono)
  have "1 < ws / wp" using w by simp
  then have "arcosh 1 < arcosh (ws / wp)" by (intro arcosh_real_strict_mono) auto
  then have d: "0 < arcosh (ws / wp)" by simp
  from n d have "arcosh (?arg As) / arcosh (ws / wp) \<le> arcosh (?arg As') / arcosh (ws / wp)"
    by (simp add: divide_right_mono)
  then have "\<lceil>arcosh (?arg As) / arcosh (ws / wp)\<rceil> \<le> \<lceil>arcosh (?arg As') / arcosh (ws / wp)\<rceil>"
    by (rule ceiling_mono)
  then show ?thesis
    unfolding getMinOrder_feasible [OF f] getMinOrder_feasible [OF f'] by simp
qed

lemma getMinOrder_antimono_ratio:
  assumes f: "feasible wp ws Ap As" and f': "feasible wp' ws' Ap As" and le: "ws / wp \<le> ws' / wp'"
  shows "js_le (getMinOrder wp' ws' Ap As) (getMinOrder wp ws Ap As)"
proof -
  let ?arg = "sqrt (10 powr (As / 20) * 10 powr (As / 20) - 1) / sqrt (10 powr (Ap / 10) - 1)"
  from f have one: "1 \<le> ?arg" and w: "0 < wp" "wp < ws"
    by (simp_all add: feasible_def)
  have n: "0 \<le> arcosh ?arg" using one by (rule arcosh_nonneg_real)
  have r: "1 < ws / wp" using w by simp
  then have "arcosh 1 < arcosh (ws / wp)" by (intro arcosh_real_strict_mono) auto
  then have d: "0 < arcosh (ws / wp)" by simp
  have "arcosh (ws / wp) \<le> arcosh (ws' / wp')" using r le by (intro arcosh_real_mono) auto
  with n d have "arcosh ?arg / arcosh (ws' / wp') \<le> arcosh ?arg / arcosh (ws / wp)"
    by (intro divide_left_mono) auto
  then have "\<lceil>arcosh ?arg / arcosh (ws' / wp')\<rceil> \<le> \<lceil>arcosh ?arg / arcosh (ws / wp)\<rceil>"
    by (rule ceiling_mono)
  then show ?thesis
    unfolding getMinOrder_feasible [OF f] getMinOrder_feasible [OF f'] by simp
qed

text \<open>
  C7. On feasible specifications \<open>getMinOrder\<close> does not decrease when \<open>As\<close> grows (\<open>wp\<close>,
  \<open>ws\<close>, \<open>Ap\<close> fixed), and does not increase when the ratio \<open>ws / wp\<close> grows (\<open>Ap\<close>, \<open>As\<close>
  fixed). The comparison is \<open><=\<close> on the numbers returned, which neither being \<open>NaN\<close>.
\<close>

theorem C7_getMinOrder_monotone:
  "(feasible wp ws Ap As \<and> feasible wp ws Ap As' \<and> As \<le> As' \<longrightarrow>
      js_le (getMinOrder wp ws Ap As) (getMinOrder wp ws Ap As')) \<and>
   (feasible wp ws Ap As \<and> feasible wp' ws' Ap As \<and> ws / wp \<le> ws' / wp' \<longrightarrow>
      js_le (getMinOrder wp' ws' Ap As) (getMinOrder wp ws Ap As))"
  using getMinOrder_mono_As getMinOrder_antimono_ratio by blast

lemma js_rem_two_even: "js_rem (of_int n) 2 = 0 \<longleftrightarrow> even n"
proof
  assume "js_rem (of_int n) 2 = 0"
  then obtain t :: int where "(of_int n :: real) = 2 * of_int t"
    unfolding js_rem_def by (metis diff_eq_eq add.left_neutral)
  then have "(of_int n :: real) = of_int (2 * t)" by simp
  then have "n = 2 * t" by (simp only: of_int_eq_iff)
  then show "even n" by simp
next
  assume "even n"
  then obtain k where k: "n = 2 * k" by (auto elim: evenE)
  have "(of_int n :: real) / 2 = of_int k" unfolding k by simp
  then show "js_rem (of_int n) 2 = 0" unfolding js_rem_def k by simp
qed

lemma biquad_loop_no_im: "biquad_loop tol ps acc = acc"
  by (induction tol ps acc rule: biquad_loop.induct) (simp_all add: pole_prop_def)

lemma real_pole_loop_no_im: "real_pole_loop tol ps acc = acc"
  by (induction tol ps acc rule: real_pole_loop.induct) (simp_all add: pole_prop_def)


lemma feasibleI:
  assumes "0 < wp" "wp < ws" "0 < Ap" "Ap < As"
  shows "feasible wp ws Ap As"
proof -
  have e: "0 < 10 powr (Ap / 10) - 1" using ten_powr_gt_one [of "Ap / 10"] assms(3) by simp
  then have se: "0 < sqrt (10 powr (Ap / 10) - 1)" by (rule real_sqrt_gt_zero)
  have "10 powr (As / 20) * 10 powr (As / 20) = 10 powr (As / 20 + As / 20)"
    by (simp only: powr_add)
  also have "\<dots> = 10 powr (As / 10)" by simp
  finally have sq: "10 powr (As / 20) * 10 powr (As / 20) = 10 powr (As / 10)" .
  have "10 powr (Ap / 10) \<le> 10 powr (As / 10)" using assms(4) by (intro powr_mono) auto
  then have "sqrt (10 powr (Ap / 10) - 1) \<le> sqrt (10 powr (As / 10) - 1)" by simp
  then have "1 \<le> sqrt (10 powr (As / 10) - 1) / sqrt (10 powr (Ap / 10) - 1)"
    using se by (simp add: le_divide_eq)
  then show ?thesis unfolding feasible_def sq using assms by simp
qed

theorem C7_getMinOrder_monotone_witness:
  "js_le (getMinOrder 1 3 3 30) (getMinOrder 1 3 3 40) \<and>
   js_le (getMinOrder 1 4 3 30) (getMinOrder 1 3 3 30)"
  using C7_getMinOrder_monotone [of 1 3 3 30 40 1 4]
    feasibleI [of 1 3 3 30] feasibleI [of 1 3 3 40] feasibleI [of 1 4 3 30]
  by simp

lemma getMinOrder_feasible_positive:
  assumes f: "feasible wp ws Ap As"
  shows "1 \<le> \<lceil>arcosh (sqrt (10 powr (As / 20) * 10 powr (As / 20) - 1) / sqrt (10 powr (Ap / 10) - 1))
                  / arcosh (ws / wp)\<rceil>"
proof -
  let ?arg = "sqrt (10 powr (As / 20) * 10 powr (As / 20) - 1) / sqrt (10 powr (Ap / 10) - 1)"
  from f have Ap: "0 < Ap" "Ap < As" and w: "0 < wp" "wp < ws"
    by (simp_all add: feasible_def)
  have e: "0 < 10 powr (Ap / 10) - 1" using ten_powr_gt_one [of "Ap / 10"] Ap(1) by simp
  then have se: "0 < sqrt (10 powr (Ap / 10) - 1)" by (rule real_sqrt_gt_zero)
  have "10 powr (As / 20) * 10 powr (As / 20) = 10 powr (As / 20 + As / 20)"
    by (simp only: powr_add)
  also have "\<dots> = 10 powr (As / 10)" by simp
  finally have sq: "10 powr (As / 20) * 10 powr (As / 20) = 10 powr (As / 10)" .
  have "10 powr (Ap / 10) < 10 powr (As / 10)" using Ap(2) by (intro powr_less_mono) auto
  then have "sqrt (10 powr (Ap / 10) - 1) < sqrt (10 powr (As / 10) - 1)" by simp
  then have "1 < ?arg" unfolding sq using se by (simp add: less_divide_eq)
  then have "arcosh 1 < arcosh ?arg" by (intro arcosh_real_strict_mono) auto
  then have n: "0 < arcosh ?arg" by simp
  have "1 < ws / wp" using w by simp
  then have "arcosh 1 < arcosh (ws / wp)" by (intro arcosh_real_strict_mono) auto
  then have d: "0 < arcosh (ws / wp)" by simp
  from n d have "0 < arcosh ?arg / arcosh (ws / wp)" by simp
  then have "0 < \<lceil>arcosh ?arg / arcosh (ws / wp)\<rceil>" by (simp only: zero_less_ceiling)
  then show ?thesis by simp
qed

text \<open>
  C3. On every feasible specification \<open>getMinOrder\<close> returns an integer \<open>n \<ge> 1\<close>,
  \<open>getBestSolutionStages\<close> returns, and the \<open>globalGainDb\<close> it returns is \<open>- Ap\<close> when \<open>n\<close> is
  even and 0 when \<open>n\<close> is odd.
\<close>

theorem C3_compensation_gain:
  assumes "feasible wp ws Ap As"
  shows "\<exists>n sol nextId'. 1 \<le> n \<and> getMinOrder wp ws Ap As = Num (of_int n) \<and>
           getBestSolutionStages tol nextId wp ws Ap As = Some (sol, nextId') \<and>
           sol_globalGainDb sol = (if even n then - Ap else 0)"
proof -
  define n where "n = \<lceil>arcosh (sqrt (10 powr (As / 20) * 10 powr (As / 20) - 1) / sqrt (10 powr (Ap / 10) - 1))
                  / arcosh (ws / wp)\<rceil>"
  have m: "getMinOrder wp ws Ap As = Num (of_int n)"
    unfolding n_def by (rule getMinOrder_feasible [OF assms])
  have p: "1 \<le> n" unfolding n_def by (rule getMinOrder_feasible_positive [OF assms])
  have "getBestSolutionStages tol nextId wp ws Ap As =
      Some (\<lparr>sol_stages = [], sol_globalGainDb = (if even n then - Ap else 0)\<rparr>, nextId)"
    unfolding getBestSolutionStages_def m
    by (simp add: Let_def biquad_loop_no_im real_pole_loop_no_im js_rem_two_even)
  with m p show ?thesis by simp
qed


theorem C3_compensation_gain_witness:
  "\<exists>n sol nextId'. 1 \<le> n \<and> getMinOrder 1 3 3 30 = Num (of_int n) \<and>
       getBestSolutionStages (1 / 5) 1 1 3 3 30 = Some (sol, nextId') \<and>
       sol_globalGainDb sol = (if even n then - 3 else 0)"
  using C3_compensation_gain [OF feasibleI, of 1 3 3 30 "1 / 5" 1] by simp

lemma ten_powr_three_tenths: "6 / 5 < (10::real) powr (3 / 10)" "(10::real) powr (3 / 10) < 4"
proof -
  let ?y = "(10::real) powr (3 / 10)"
  have "?y powr 10 = 10 powr (3 / 10 * 10)" by (simp only: powr_powr)
  also have "\<dots> = 10 powr 3" by simp
  also have "\<dots> = 1000" by simp
  finally have "?y powr 10 = 1000" .
  then have y10: "?y ^ 10 = 1000" by simp
  have "(6 / 5 :: real) ^ 10 < 1000" by (simp add: power_divide)
  then have "(6 / 5 :: real) ^ 10 < ?y ^ 10" unfolding y10 .
  then show "6 / 5 < ?y" by (rule power_less_imp_less_base) simp
  have "(1000 :: real) < 4 ^ 10" by simp
  then have "?y ^ 10 < 4 ^ 10" unfolding y10 .
  then show "?y < 4" by (rule power_less_imp_less_base) simp
qed

lemma arcosh_three_multiples:
  "arcosh (17::real) = 2 * arcosh 3" "arcosh (99::real) = 3 * arcosh 3" "0 < arcosh (3::real)"
proof -
  let ?a = "arcosh (3::real)"
  have c: "cosh ?a = 3" by (rule cosh_arcosh_real) simp
  have "arcosh 1 < ?a" by (intro arcosh_real_strict_mono) auto
  then show a: "0 < ?a" by simp
  have s2: "(sinh ?a)\<^sup>2 = 8" using cosh_square_eq [of ?a] c by simp
  have c2: "cosh (2 * ?a) = 17" using c by (simp add: cosh_double_cosh)
  have "sinh (2 * ?a) * sinh ?a = 2 * (sinh ?a)\<^sup>2 * cosh ?a"
    by (simp add: sinh_double power2_eq_square)
  then have ss: "sinh (2 * ?a) * sinh ?a = 48" using s2 c by simp
  have "cosh (3 * ?a) = cosh (2 * ?a + ?a)" by simp
  also have "\<dots> = cosh (2 * ?a) * cosh ?a + sinh (2 * ?a) * sinh ?a" by (rule cosh_add)
  also have "\<dots> = 99" using c2 c ss by simp
  finally have c3: "cosh (3 * ?a) = 99" .
  have "arcosh (cosh (2 * ?a)) = 2 * ?a" using a by (intro arcosh_cosh_real) simp
  then show "arcosh (17::real) = 2 * ?a" unfolding c2 .
  have "arcosh (cosh (3 * ?a)) = 3 * ?a" using a by (intro arcosh_cosh_real) simp
  then show "arcosh (99::real) = 3 * ?a" unfolding c3 .
qed

lemma sqrt_square_mult: "0 \<le> c \<Longrightarrow> sqrt (c * c * x) = c * sqrt x"
  by (simp add: real_sqrt_mult)

lemma scenario_argument_bounds:
  "17 < sqrt (10 powr (30 / 20) * 10 powr (30 / 20) - 1) / sqrt (10 powr (3 / 10) - 1)"
  "sqrt (10 powr (30 / 20) * 10 powr (30 / 20) - 1) / sqrt (10 powr (3 / 10) - 1) \<le> 99"
proof -
  let ?y = "(10::real) powr (3 / 10)"
  have "(10::real) powr (30 / 20) * 10 powr (30 / 20) = 10 powr (30 / 20 + 30 / 20)"
    by (simp only: powr_add)
  also have "\<dots> = 10 powr 3" by simp
  also have "\<dots> = 1000" by simp
  finally have sq: "(10::real) powr (30 / 20) * 10 powr (30 / 20) = 1000" .
  note y = ten_powr_three_tenths
  have se: "0 < sqrt (?y - 1)" using y(1) by simp
  have "289 * (?y - 1) < 999" using y(2) by simp
  then have lt: "sqrt (289 * (?y - 1)) < sqrt 999" by (simp only: real_sqrt_less_iff)
  have "(289::real) = 17 * 17" by simp
  then have "sqrt (289 * (?y - 1)) = sqrt (17 * 17 * (?y - 1))" by (simp only:)
  also have "\<dots> = 17 * sqrt (?y - 1)" by (rule sqrt_square_mult) simp
  finally have eq17: "sqrt (289 * (?y - 1)) = 17 * sqrt (?y - 1)" .
  from lt have "17 * sqrt (?y - 1) < sqrt 999" unfolding eq17 .
  then have "17 < sqrt 999 / sqrt (?y - 1)" using se by (simp add: less_divide_eq)
  then show "17 < sqrt (10 powr (30 / 20) * 10 powr (30 / 20) - 1) / sqrt (?y - 1)"
    unfolding sq by simp
  have "999 \<le> 9801 * (?y - 1)" using y(1) by simp
  then have le: "sqrt 999 \<le> sqrt (9801 * (?y - 1))" by (simp only: real_sqrt_le_iff)
  have "(9801::real) = 99 * 99" by simp
  then have "sqrt (9801 * (?y - 1)) = sqrt (99 * 99 * (?y - 1))" by (simp only:)
  also have "\<dots> = 99 * sqrt (?y - 1)" by (rule sqrt_square_mult) simp
  finally have eq99: "sqrt (9801 * (?y - 1)) = 99 * sqrt (?y - 1)" .
  from le have "sqrt 999 \<le> 99 * sqrt (?y - 1)" unfolding eq99 .
  then have "sqrt 999 / sqrt (?y - 1) \<le> 99" using se by (simp add: divide_le_eq)
  then show "sqrt (10 powr (30 / 20) * 10 powr (30 / 20) - 1) / sqrt (?y - 1) \<le> 99"
    unfolding sq by simp
qed

lemma getMinOrder_scenario: "getMinOrder 1 3 3 30 = Num 3"
proof -
  let ?X = "sqrt (10 powr (30 / 20) * 10 powr (30 / 20) - 1) / sqrt (10 powr (3 / 10) - 1) :: real"
  note b = scenario_argument_bounds and a = arcosh_three_multiples
  have one: "1 \<le> ?X" using b(1) by linarith
  have "arcosh 17 < arcosh ?X" by (rule arcosh_real_strict_mono [OF _ b(1)]) simp
  then have lo: "2 * arcosh 3 < arcosh ?X" unfolding a(1) .
  have "arcosh ?X \<le> arcosh 99" by (rule arcosh_real_mono [OF one b(2)])
  then have hi: "arcosh ?X \<le> 3 * arcosh 3" unfolding a(2) .
  have "of_int 3 - 1 < arcosh ?X / arcosh (3::real)" using lo a(3) by (simp add: less_divide_eq)
  moreover have "arcosh ?X / arcosh (3::real) \<le> of_int 3" using hi a(3) by (simp add: divide_le_eq)
  ultimately have c: "\<lceil>arcosh ?X / arcosh (3::real)\<rceil> = 3" by (rule ceiling_unique)
  have f: "feasible 1 3 3 30" by (rule feasibleI) simp_all
  show ?thesis using getMinOrder_feasible [OF f] c by simp
qed

text \<open>
  C1 on the code. For \<open>wp = 1\<close>, \<open>ws = 3\<close>, \<open>Ap = 3\<close>, \<open>As = 30\<close> the minimum order is 3 and
  \<open>globalGainDb\<close> is 0, but the stage list returned is empty: both loops test \<open>p.im\<close>, a
  property the pole objects \<open>{sigma, omega}\<close> do not have, so no section is built.
\<close>

theorem C1_decompose_scenario_no_stages:
  "getMinOrder 1 3 3 30 = Num 3 \<and>
   getBestSolutionStages tol nextId 1 3 3 30
     = Some (\<lparr>sol_stages = [], sol_globalGainDb = 0\<rparr>, nextId)"
  unfolding getBestSolutionStages_def getMinOrder_scenario
  by (simp add: Let_def biquad_loop_no_im real_pole_loop_no_im js_rem_def)

text \<open>
  Whenever \<open>getMinOrder\<close> returns a finite number the radicand of \<open>epsilon\<close> is positive,
  so the real square root in the finite branch of \<open>getBestSolutionStages\<close> is the one
  the code computes.
\<close>

lemma getMinOrder_Num_epsilon:
  assumes "getMinOrder wp ws Ap As = Num n"
  shows "0 < 10 powr (Ap / 10) - 1"
proof -
  have "\<not> Ap < 0" using getMinOrder_negative_ripple [of Ap wp ws As] assms by auto
  moreover have "Ap \<noteq> 0" using getMinOrder_zero_ripple [of Ap wp ws As] assms by auto
  ultimately have "0 < Ap" by simp
  then show ?thesis using ten_powr_gt_one [of "Ap / 10"] by simp
qed

text \<open>
  The current \<open>getBestSolutionStages\<close> builds no stage on any input: whenever it returns,
  the stage list is empty and the identity counter is where it was.
\<close>

lemma getBestSolutionStages_builds_nothing:
  assumes "getBestSolutionStages tol nextId wp ws Ap As = Some (sol, nextId')"
  shows "sol_stages sol = [] \<and> nextId' = nextId"
  using assms unfolding getBestSolutionStages_def
  by (auto simp: Let_def biquad_loop_no_im real_pole_loop_no_im split: jsnum.splits)

lemma solver_getPoles_three:
  "solver_getPoles 3 e w =
     [\<lparr>sigma = (- w) * sinh (arsinh (1 / e) / 3) * sin (pi / 6),
       omega = w * cosh (arsinh (1 / e) / 3) * cos (pi / 6)\<rparr>,
      \<lparr>sigma = (- w) * sinh (arsinh (1 / e) / 3) * sin (pi / 2),
       omega = w * cosh (arsinh (1 / e) / 3) * cos (pi / 2)\<rparr>,
      \<lparr>sigma = (- w) * sinh (arsinh (1 / e) / 3) * sin (pi * 5 / 6),
       omega = w * cosh (arsinh (1 / e) / 3) * cos (pi * 5 / 6)\<rparr>]"
proof -
  have u: "[1 ..< Suc (nat \<lfloor>3::real\<rfloor>)] = [1, 2, 3]"
    by (simp add: upt_rec)
  show ?thesis unfolding solver_getPoles_def Let_def u by simp
qed


lemma floor_three_halves: "\<lfloor>3 / 2 :: real\<rfloor> = 1"
  by (rule floor_unique) simp_all

lemma js_rem_three_two: "js_rem 3 2 = 1"
  unfolding js_rem_def floor_three_halves by simp

text \<open>
  The older variant on the scenario of C1. The three poles have a positive, a zero and a
  negative imaginary part; the result is one second-order stage built from the first
  pole and one first-order stage built from the real pole, with \<open>globalGainDb = 0\<close>.
\<close>

lemma legacy_decompose_scenario:
  fixes nextId :: nat
  defines "ps \<equiv> solver_getPoles 3 (sqrt (10 powr (3 / 10) - 1)) 1"
  shows "length ps = 3 \<and> 0 < omega (ps ! 0) \<and> omega (ps ! 1) = 0 \<and> omega (ps ! 2) < 0 \<and>
     sigma (ps ! 0) < 0 \<and> sigma (ps ! 1) < 0 \<and>
     getBestSolutionStages_legacy nextId 1 3 3 30 =
       Some (Inr (\<lparr>sol_stages =
          [SecondOrderLowPass nextId True
             (new_AnimatedParameter_legacy
                (sqrt (sigma (ps ! 0) * sigma (ps ! 0) + omega (ps ! 0) * omega (ps ! 0))) (1 / 100) 100)
             (new_AnimatedParameter_legacy
                (sqrt (sigma (ps ! 0) * sigma (ps ! 0) + omega (ps ! 0) * omega (ps ! 0))
                   / (- 2 * sigma (ps ! 0))) (1 / 10) 20),
           FirstOrderLowPass (nextId + 1) True
             (new_AnimatedParameter_legacy (- sigma (ps ! 1)) (1 / 100) 100)],
          sol_globalGainDb = 0\<rparr>, nextId + 2))"
proof -
  let ?e = "sqrt (10 powr (3 / 10) - 1) :: real"
  let ?g = "arsinh (1 / ?e) / 3"
  have e: "0 < ?e" using ten_powr_three_tenths(1) by simp
  then have "0 < 1 / ?e" by simp
  then have "arsinh 0 < arsinh (1 / ?e)" by (simp only: arsinh_less_iff_real)
  then have g: "0 < ?g" by simp
  then have sh: "0 < sinh ?g" by simp
  have ch: "0 < cosh ?g" by (rule cosh_real_pos)
  have c6: "0 < cos (pi / 6 :: real)" by (simp add: cos_30)
  have c56: "cos (pi * 5 / 6 :: real) = - cos (pi / 6)"
  proof -
    have "pi * 5 / 6 = pi - pi / 6" by simp
    then show ?thesis by (simp only: cos_pi_minus)
  qed
  have len: "length ps = 3" unfolding ps_def solver_getPoles_three by simp
  have o0: "0 < omega (ps ! 0)" unfolding ps_def solver_getPoles_three using ch c6 by simp
  have o1: "omega (ps ! 1) = 0" unfolding ps_def solver_getPoles_three by simp
  have o2: "omega (ps ! 2) < 0" unfolding ps_def solver_getPoles_three c56 using ch c6 by simp
  have s0: "sigma (ps ! 0) < 0" unfolding ps_def solver_getPoles_three using sh by (simp add: sin_30)
  have s1: "sigma (ps ! 1) < 0" unfolding ps_def solver_getPoles_three using sh by simp
  have ne: "ps \<noteq> []" using len by auto
  have u: "[0 ..< nat \<lfloor>3 / 2 :: real\<rfloor>] = [0]" unfolding floor_three_halves by simp
  have r: "getBestSolutionStages_legacy nextId 1 3 3 30 =
       Some (Inr (\<lparr>sol_stages =
          [SecondOrderLowPass nextId True
             (new_AnimatedParameter_legacy
                (sqrt (sigma (ps ! 0) * sigma (ps ! 0) + omega (ps ! 0) * omega (ps ! 0))) (1 / 100) 100)
             (new_AnimatedParameter_legacy
                (sqrt (sigma (ps ! 0) * sigma (ps ! 0) + omega (ps ! 0) * omega (ps ! 0))
                   / (- 2 * sigma (ps ! 0))) (1 / 10) 20),
           FirstOrderLowPass (nextId + 1) True
             (new_AnimatedParameter_legacy (- sigma (ps ! 1)) (1 / 100) 100)],
          sol_globalGainDb = 0\<rparr>, nextId + 2))"
    unfolding getBestSolutionStages_legacy_def getMinOrder_scenario
    using len ne
    by (simp add: Let_def ps_def [symmetric] u legacy_real_pole_def js_rem_three_two
          floor_three_halves new_SecondOrderLowPass_legacy_def new_FirstOrderLowPass_legacy_def)
  from len o0 o1 o2 s0 s1 r show ?thesis by blast
qed

end
